theory Spec2Isabelle
  imports Complex_Main
begin

section \<open>The adventure game of src/assets/js/adventureGame/code.js\<close>

text \<open>
  The game keeps its numbers in JavaScript numbers. They are read here as real numbers:
  every value is finite and arithmetic is exact. Where the source divides, the theorems
  say which divisors they take to be non-zero.

  A value that may be \<open>undefined\<close> is an \<open>option\<close>. The operator \<open>a || d\<close> of the source
  yields \<open>d\<close> when \<open>a\<close> is falsy: \<open>undefined\<close>, the number 0 or the empty string.
\<close>

definition num_or :: "real option \<Rightarrow> real \<Rightarrow> real" where
  "num_or a d = (case a of None \<Rightarrow> d | Some r \<Rightarrow> if r = 0 then d else r)"

definition str_or :: "string option \<Rightarrow> string \<Rightarrow> string" where
  "str_or a d = (case a of None \<Rightarrow> d | Some s \<Rightarrow> if s = [] then d else s)"

definition truthy_str :: "string option \<Rightarrow> bool" where
  "truthy_str a = (case a of None \<Rightarrow> False | Some s \<Rightarrow> s \<noteq> [])"

subsection \<open>Data\<close>

text \<open>The rectangle that \<open>getBoundingClientRect\<close> returns: \<open>right\<close> and \<open>bottom\<close> are derived.\<close>

record DOMRect =
  rect_left :: real
  rect_top :: real
  rect_width :: real
  rect_height :: real

definition rect_right :: "DOMRect \<Rightarrow> real" where
  "rect_right r = rect_left r + rect_width r"

definition rect_bottom :: "DOMRect \<Rightarrow> real" where
  "rect_bottom r = rect_top r + rect_height r"

text \<open>
  A canvas element: its id and the box the browser lays it out in. Every canvas that
  \<open>isCollision\<close> reads belongs to an object of the registry and is a child of the
  element \<open>gameContainer\<close>, which is taken to sit at the origin of an unscrolled page,
  so the bounding rectangle is the box itself.
\<close>

record Canvas =
  canvas_id :: string
  canvas_rect :: DOMRect

definition getBoundingClientRect :: "Canvas \<Rightarrow> DOMRect" where
  "getBoundingClientRect c = canvas_rect c"

record Hitbox =
  widthPercentage :: "real option"
  heightPercentage :: "real option"

record Vec =
  vx :: real
  vy :: real

record Quiz =
  title :: "string option"
  quiz_questions :: "string list option"

text \<open>
  The directions an object can face, and the entry a descriptor holds for one of them:
  the row of the sprite sheet, the first frame and the number of frames.
\<close>

datatype direction = DirUp | DirDown | DirLeft | DirRight

record DirectionData =
  dir_row :: real
  dir_start :: real
  dir_columns :: real

text \<open>
  A level's descriptor of one object (\<open>data\<close> in the constructors). \<open>orientation\<close>
  holds the rows and columns of the sprite sheet, and \<open>frames\<close> the entries
  \<open>data.up\<close>, \<open>data.down\<close>, \<open>data.left\<close> and \<open>data.right\<close>.
\<close>

record SpriteData =
  data_id :: "string option"
  greeting :: "string option"
  src :: "string option"
  SCALE_FACTOR :: "real option"
  STEP_FACTOR :: "real option"
  ANIMATION_RATE :: "real option"
  INIT_POSITION :: "Vec option"
  pixels :: "(real \<times> real) option"
  data_hitbox :: "Hitbox option"
  data_quiz :: "Quiz option"
  orientation :: "(real \<times> real) option"
  frames :: "direction \<Rightarrow> DirectionData option"

record TouchSide =
  touch_id :: string
  greet :: "string option"
  touch_top :: bool
  touch_bottom :: bool
  touch_left :: bool
  touch_right :: bool

record CollisionData =
  hit :: bool
  touch_this :: TouchSide
  touch_other :: TouchSide

record Movement =
  move_up :: bool
  move_down :: bool
  move_left :: bool
  move_right :: bool

datatype char_class = CharacterClass | PlayerClass | NpcClass

text \<open>
  An instance of \<open>Character\<close> or of one of its subclasses. \<open>collisionData\<close> is the empty
  object until the first call of \<open>isCollision\<close>. \<open>quiz\<close> and \<open>questions\<close> are the fields
  that the constructor of \<open>Npc\<close> adds.
\<close>

record Character =
  cls :: char_class
  canvas :: Canvas
  hitbox :: Hitbox
  spriteData :: SpriteData
  position :: Vec
  velocity :: Vec
  scale_width :: real
  scale_height :: real
  scaleFactor :: real
  stepFactor :: real
  animationRate :: real
  char_size :: real
  char_width :: real
  char_height :: real
  xVelocity :: real
  yVelocity :: real
  collisionData :: "CollisionData option"
  collisionEvents :: "string list"
  movement :: Movement
  quiz :: "string option"
  questions :: "string list"
  direction :: direction

subsection \<open>GameObject.isCollision\<close>

text \<open>
  \<open>collision_result\<close> is the object \<open>{ hit, touchPoints }\<close> that the body of
  \<open>isCollision\<close> builds; \<open>isCollision\<close> stores it in \<open>this.collisionData\<close>.
\<close>

definition collision_result :: "Character \<Rightarrow> Character \<Rightarrow> CollisionData" where
  "collision_result this other =
    (let thisRect = getBoundingClientRect (canvas this);
         otherRect = getBoundingClientRect (canvas other);
         thisWidthReduction = rect_width thisRect * num_or (widthPercentage (hitbox this)) 0;
         thisHeightReduction = rect_height thisRect * num_or (heightPercentage (hitbox this)) 0;
         otherWidthReduction = rect_width otherRect * num_or (widthPercentage (hitbox other)) 0;
         otherHeightReduction = rect_height otherRect * num_or (heightPercentage (hitbox other)) 0;
         thisLeft = rect_left thisRect + thisWidthReduction;
         thisTop = rect_top thisRect + thisHeightReduction;
         thisRight = rect_right thisRect - thisWidthReduction;
         thisBottom = rect_bottom thisRect;
         otherLeft = rect_left otherRect + otherWidthReduction;
         otherTop = rect_top otherRect + otherHeightReduction;
         otherRight = rect_right otherRect - otherWidthReduction;
         otherBottom = rect_bottom otherRect
     in \<lparr>hit = (thisLeft < otherRight \<and> thisRight > otherLeft \<and>
                thisTop < otherBottom \<and> thisBottom > otherTop),
         touch_this =
           \<lparr>touch_id = canvas_id (canvas this),
            greet = greeting (spriteData this),
            touch_top = (thisBottom > otherTop \<and> thisTop < otherTop),
            touch_bottom = (thisTop < otherBottom \<and> thisBottom > otherBottom),
            touch_left = (thisRight > otherLeft \<and> thisLeft < otherLeft),
            touch_right = (thisLeft < otherRight \<and> thisRight > otherRight)\<rparr>,
         touch_other =
           \<lparr>touch_id = canvas_id (canvas other),
            greet = greeting (spriteData other),
            touch_top = (otherBottom > thisTop \<and> otherTop < thisTop),
            touch_bottom = (otherTop < thisBottom \<and> otherBottom > thisBottom),
            touch_left = (otherRight > thisLeft \<and> otherLeft < thisLeft),
            touch_right = (otherLeft < thisRight \<and> otherRight > thisRight)\<rparr>\<rparr>)"

definition isCollision :: "Character \<Rightarrow> Character \<Rightarrow> Character" where
  "isCollision this other = this\<lparr>collisionData := Some (collision_result this other)\<rparr>"

text \<open>\<open>this.collisionData.hit\<close> as a condition: \<open>undefined\<close> on the empty object is falsy.\<close>

definition collision_hit :: "Character \<Rightarrow> bool" where
  "collision_hit this = (case collisionData this of None \<Rightarrow> False | Some d \<Rightarrow> hit d)"

subsection \<open>The collision reaction\<close>

text \<open>
  \<open>handleCollisionReaction\<close> shows the greeting of the other object in a dialog
  (\<open>alert\<close>) and writes no field of the game, so it leaves \<open>this\<close> as it is.
\<close>

definition handleCollisionReaction :: "Character \<Rightarrow> TouchSide \<Rightarrow> Character" where
  "handleCollisionReaction this other = this"

text \<open>
  \<open>handleCollisionState\<close> and \<open>handleCollisionEvent\<close> read \<open>touchPoints\<close> from
  \<open>collisionData\<close>; \<open>collisionChecks\<close> calls them right after \<open>isCollision\<close> has
  written it, and nothing else calls them. On the empty object, which no call reaches,
  the source would raise a \<open>TypeError\<close>; the functions below leave \<open>this\<close> as it is
  there. The four definitions that follow are the bodies of the four tests on the touch
  points, in the order of the source.
\<close>

definition on_touch_top :: "Character \<Rightarrow> Character" where
  "on_touch_top this =
    (let t = this\<lparr>movement := (movement this)\<lparr>move_down := False\<rparr>\<rparr>
     in if vy (velocity t) > 0 then t\<lparr>velocity := (velocity t)\<lparr>vy := 0\<rparr>\<rparr> else t)"

definition on_touch_bottom :: "Character \<Rightarrow> Character" where
  "on_touch_bottom this =
    (let t = this\<lparr>movement := (movement this)\<lparr>move_up := False\<rparr>\<rparr>
     in if vy (velocity t) < 0 then t\<lparr>velocity := (velocity t)\<lparr>vy := 0\<rparr>\<rparr> else t)"

definition on_touch_right :: "Character \<Rightarrow> Character" where
  "on_touch_right this =
    (let t = this\<lparr>movement := (movement this)\<lparr>move_left := False\<rparr>\<rparr>
     in if vx (velocity t) < 0 then t\<lparr>velocity := (velocity t)\<lparr>vx := 0\<rparr>\<rparr> else t)"

definition on_touch_left :: "Character \<Rightarrow> Character" where
  "on_touch_left this =
    (let t = this\<lparr>movement := (movement this)\<lparr>move_right := False\<rparr>\<rparr>
     in if vx (velocity t) > 0 then t\<lparr>velocity := (velocity t)\<lparr>vx := 0\<rparr>\<rparr> else t)"

definition handleCollisionState :: "Character \<Rightarrow> Character" where
  "handleCollisionState this =
    (case collisionData this of
       None \<Rightarrow> this
     | Some d \<Rightarrow>
        if length (collisionEvents this) > 0 then
          (let touchPoints = touch_this d;
               this0 = this\<lparr>movement :=
                 \<lparr>move_up = True, move_down = True, move_left = True, move_right = True\<rparr>\<rparr>;
               this1 = (if touch_top touchPoints then on_touch_top this0 else this0);
               this2 = (if touch_bottom touchPoints then on_touch_bottom this1 else this1);
               this3 = (if touch_right touchPoints then on_touch_right this2 else this2);
               this4 = (if touch_left touchPoints then on_touch_left this3 else this3)
           in this4)
        else this)"

definition handleCollisionEvent :: "Character \<Rightarrow> Character" where
  "handleCollisionEvent this =
    (case collisionData this of
       None \<Rightarrow> this
     | Some d \<Rightarrow>
        (let objectOther = touch_other d;
             this1 = (if touch_id objectOther \<notin> set (collisionEvents this) then
                        handleCollisionReaction
                          (this\<lparr>collisionEvents := collisionEvents this @ [touch_id objectOther]\<rparr>)
                          objectOther
                      else this)
         in handleCollisionState this1))"

subsection \<open>The registry\<close>

text \<open>
  Objects are held by reference. \<open>heap\<close> gives the object behind a reference,
  \<open>next_ref\<close> is the reference that the next \<open>new\<close> returns, and \<open>gameObjects\<close>
  is the array \<open>GameEnv.gameObjects\<close>. \<open>container\<close> lists the canvases that are
  children of the element \<open>gameContainer\<close>, each named by the object that created it.
  \<open>layout\<close> is where the browser puts a canvas that has just been appended and has no
  style yet, and \<open>random\<close> is the sequence of numbers that \<open>Math.random\<close> returns,
  \<open>random_next\<close> counting the calls made so far.

  Modelled from the spec: \<open>Background.js\<close> is not among the sources; a background is an
  entity of the registry that is created from its descriptor and has no canvas of its own.
\<close>

type_synonym ref = nat

datatype gameObject = Background SpriteData | Char Character

record World =
  heap :: "ref \<Rightarrow> gameObject"
  next_ref :: ref
  gameObjects :: "ref list"
  container :: "ref list"
  continueLevel :: bool
  innerWidth :: real
  innerHeight :: real
  env_top :: real
  layout :: "ref \<Rightarrow> real \<times> real"
  random :: "nat \<Rightarrow> real"
  random_next :: nat

datatype js_error = TypeError | ReferenceError | Error string

subsection \<open>GameObject.collisionChecks\<close>

text \<open>
  One round of the loop over \<open>GameEnv.gameObjects\<close>. The state is \<open>this\<close> and the local
  \<open>collisionDetected\<close>. The loop writes \<open>this\<close> only, and it skips \<open>this\<close> itself, so
  every \<open>gameObj\<close> it reads is the object the heap held when the loop began.
\<close>

definition collisionChecks_step ::
    "(ref \<Rightarrow> gameObject) \<Rightarrow> ref \<Rightarrow> Character \<times> bool \<Rightarrow> ref \<Rightarrow> Character \<times> bool" where
  "collisionChecks_step h r s g =
    (case h g of
       Background _ \<Rightarrow> s
     | Char gameObj \<Rightarrow>
        if r \<noteq> g then
          (let this1 = isCollision (fst s) gameObj
           in if collision_hit this1 then (handleCollisionEvent this1, True)
              else (this1, snd s))
        else s)"

definition collisionChecks :: "World \<Rightarrow> ref \<Rightarrow> Character \<Rightarrow> Character" where
  "collisionChecks w r this =
    (let s = foldl (collisionChecks_step (heap w) r) (this, False) (gameObjects w)
     in if \<not> snd s then (fst s)\<lparr>collisionEvents := []\<rparr> else fst s)"

subsection \<open>Character.resize, Character.draw, Character.update and Npc.update\<close>

definition resize :: "World \<Rightarrow> Character \<Rightarrow> Character" where
  "resize w this =
    (let newScale_width = innerWidth w;
         newScale_height = innerHeight w;
         this1 = this\<lparr>position :=
           \<lparr>vx = (vx (position this) / scale_width this) * newScale_width,
            vy = (vy (position this) / scale_height this) * newScale_height\<rparr>\<rparr>;
         this2 = this1\<lparr>scale_width := newScale_width, scale_height := newScale_height\<rparr>;
         this3 = this2\<lparr>char_size := scale_height this2 / scaleFactor this2\<rparr>;
         this4 = this3\<lparr>xVelocity := scale_width this3 / stepFactor this3,
                       yVelocity := scale_height this3 / stepFactor this3\<rparr>
     in this4\<lparr>char_width := char_size this4, char_height := char_size this4\<rparr>)"

text \<open>
  Every object that the constructor has returned has a sprite sheet, so \<open>draw\<close> takes
  the branch that paints from it. It first reads \<open>spriteData.pixels\<close>,
  \<open>spriteData.orientation\<close> and the entry of the descriptor for the direction the
  object faces; where one of them is missing,
  reading its field raises a \<open>TypeError\<close> before anything has been written. It then
  paints the current frame of the sprite sheet and advances the animation counters,
  which nothing else reads. What it leaves behind for the rest of the game is the style
  of the canvas, which \<open>draw_style\<close> sets: absolute position, left, top, width and
  height.
\<close>

definition draw_style :: "World \<Rightarrow> Character \<Rightarrow> Character" where
  "draw_style w this = this\<lparr>canvas := (canvas this)\<lparr>canvas_rect :=
     \<lparr>rect_left = vx (position this), rect_top = env_top w + vy (position this),
      rect_width = char_width this, rect_height = char_height this\<rparr>\<rparr>\<rparr>"

definition draw :: "World \<Rightarrow> Character \<Rightarrow> js_error + Character" where
  "draw w this =
    (if pixels (spriteData this) = None then Inl TypeError
     else if orientation (spriteData this) = None then Inl TypeError
     else if frames (spriteData this) (direction this) = None then Inl TypeError
     else Inr (draw_style w this))"

definition integrate :: "Character \<Rightarrow> Character" where
  "integrate this = this\<lparr>position :=
     \<lparr>vx = vx (position this) + vx (velocity this),
      vy = vy (position this) + vy (velocity this)\<rparr>\<rparr>"

definition keep_above_bottom :: "World \<Rightarrow> Character \<Rightarrow> Character" where
  "keep_above_bottom w this =
    (if vy (position this) + char_height this > innerHeight w then
       this\<lparr>position := (position this)\<lparr>vy := innerHeight w - char_height this\<rparr>,
            velocity := (velocity this)\<lparr>vy := 0\<rparr>\<rparr>
     else this)"

definition keep_below_top :: "Character \<Rightarrow> Character" where
  "keep_below_top this =
    (if vy (position this) < 0 then
       this\<lparr>position := (position this)\<lparr>vy := 0\<rparr>, velocity := (velocity this)\<lparr>vy := 0\<rparr>\<rparr>
     else this)"

definition keep_left_of_right :: "World \<Rightarrow> Character \<Rightarrow> Character" where
  "keep_left_of_right w this =
    (if vx (position this) + char_width this > innerWidth w then
       this\<lparr>position := (position this)\<lparr>vx := innerWidth w - char_width this\<rparr>,
            velocity := (velocity this)\<lparr>vx := 0\<rparr>\<rparr>
     else this)"

definition keep_right_of_left :: "Character \<Rightarrow> Character" where
  "keep_right_of_left this =
    (if vx (position this) < 0 then
       this\<lparr>position := (position this)\<lparr>vx := 0\<rparr>, velocity := (velocity this)\<lparr>vx := 0\<rparr>\<rparr>
     else this)"

text \<open>
  \<open>Character.update\<close>; the four tests on the boundaries are the definitions above. An
  error of \<open>draw\<close> ends the update before anything has been written.
\<close>

definition Character_update :: "World \<Rightarrow> ref \<Rightarrow> Character \<Rightarrow> js_error + Character" where
  "Character_update w r this =
    (case draw w this of
       Inl e \<Rightarrow> Inl e
     | Inr this1 \<Rightarrow>
        Inr (keep_right_of_left (keep_left_of_right w (keep_below_top (keep_above_bottom w
               (integrate (collisionChecks w r this1)))))))"

definition Npc_update :: "World \<Rightarrow> Character \<Rightarrow> js_error + Character" where
  "Npc_update w this = draw w this"

text \<open>
  The call \<open>object.update()\<close> of the game loop: \<open>Npc\<close> overrides \<open>update\<close>, \<open>Player\<close>
  inherits it from \<open>Character\<close>. An error carries the world as the exception leaves it.

  Modelled from the spec: the \<open>update\<close> of a background (\<open>Background.js\<close> is not among
  the sources) redraws it and changes no field of the world.
\<close>

definition update :: "ref \<Rightarrow> World \<Rightarrow> (js_error \<times> World) + World" where
  "update r w =
    (case heap w r of
       Background _ \<Rightarrow> Inr w
     | Char this \<Rightarrow>
        (case (if cls this = NpcClass then Npc_update w this else Character_update w r this) of
           Inl e \<Rightarrow> Inl (e, w)
         | Inr this' \<Rightarrow> Inr (w\<lparr>heap := (heap w)(r := Char this')\<rparr>)))"

subsection \<open>Character.destroy\<close>

fun indexOf :: "ref list \<Rightarrow> ref \<Rightarrow> nat option" where
  "indexOf [] r = None"
| "indexOf (x # xs) r = (if x = r then Some 0 else map_option Suc (indexOf xs r))"

definition splice1 :: "nat \<Rightarrow> 'a list \<Rightarrow> 'a list" where
  "splice1 index xs = take index xs @ drop (Suc index) xs"

text \<open>
  \<open>this.canvas.parentNode\<close> is null when the canvas is no child of the container, and
  the call of \<open>removeChild\<close> on it raises a \<open>TypeError\<close>. An error carries the world
  as the exception leaves it.
\<close>

definition Character_destroy :: "ref \<Rightarrow> World \<Rightarrow> (js_error \<times> World) + World" where
  "Character_destroy r w =
    (case indexOf (gameObjects w) r of
       None \<Rightarrow> Inr w
     | Some index \<Rightarrow>
        if r \<in> set (container w) then
          Inr (w\<lparr>container := remove1 r (container w),
                 gameObjects := splice1 index (gameObjects w)\<rparr>)
        else Inl (TypeError, w))"

text \<open>
  Modelled from the spec: the \<open>destroy\<close> of a background (\<open>Background.js\<close> is not among
  the sources) removes the object from the registry; it has no canvas to release.
\<close>

definition Background_destroy :: "ref \<Rightarrow> World \<Rightarrow> World" where
  "Background_destroy r w =
    (case indexOf (gameObjects w) r of
       None \<Rightarrow> w
     | Some index \<Rightarrow> w\<lparr>gameObjects := splice1 index (gameObjects w)\<rparr>)"

definition destroy :: "ref \<Rightarrow> World \<Rightarrow> (js_error \<times> World) + World" where
  "destroy r w =
    (case heap w r of
       Background _ \<Rightarrow> Inr (Background_destroy r w)
     | Char _ \<Rightarrow> Character_destroy r w)"

subsection \<open>The constructors\<close>

definition SCALE_FACTOR_default :: real where "SCALE_FACTOR_default = 25"
definition STEP_FACTOR_default :: real where "STEP_FACTOR_default = 100"
definition ANIMATION_RATE_default :: real where "ANIMATION_RATE_default = 1"
definition INIT_POSITION_default :: Vec where "INIT_POSITION_default = \<lparr>vx = 0, vy = 0\<rparr>"

text \<open>
  The constructor of \<open>Character\<close>; \<open>new_canvas\<close> is the canvas it creates and
  \<open>Character_fields\<close> the fields it assigns before it adds the object to the registry
  and calls \<open>resize\<close>. With \<open>data\<close> null, \<open>data.id\<close> raises a \<open>TypeError\<close>
  before the canvas is appended. With a descriptor that has no \<open>src\<close>, the canvas is
  already a child of the container when the \<open>Error\<close> is raised. \<open>size\<close>, \<open>width\<close>,
  \<open>height\<close> and the two step velocities are not set until \<open>resize\<close> writes them at the
  end of the constructor; they are 0 until then. The position is held by value: every
  descriptor of the levels brings a position object of its own.
\<close>

definition new_canvas :: "SpriteData \<Rightarrow> real \<times> real \<Rightarrow> Canvas" where
  "new_canvas d place =
    \<lparr>canvas_id = str_or (data_id d) ''default'',
     canvas_rect = \<lparr>rect_left = fst place, rect_top = snd place,
                    rect_width = num_or (map_option fst (pixels d)) 0,
                    rect_height = num_or (map_option snd (pixels d)) 0\<rparr>\<rparr>"

definition Character_fields :: "char_class \<Rightarrow> SpriteData \<Rightarrow> Canvas \<Rightarrow> World \<Rightarrow> Character" where
  "Character_fields k d cv w =
    \<lparr>cls = k, canvas = cv,
     hitbox = (case data_hitbox d of
                 None \<Rightarrow> \<lparr>widthPercentage = None, heightPercentage = None\<rparr>
               | Some h \<Rightarrow> h),
     spriteData = d,
     position = (case INIT_POSITION d of None \<Rightarrow> INIT_POSITION_default | Some p \<Rightarrow> p),
     velocity = \<lparr>vx = 0, vy = 0\<rparr>,
     scale_width = innerWidth w, scale_height = innerHeight w,
     scaleFactor = num_or (SCALE_FACTOR d) SCALE_FACTOR_default,
     stepFactor = num_or (STEP_FACTOR d) STEP_FACTOR_default,
     animationRate = num_or (ANIMATION_RATE d) ANIMATION_RATE_default,
     char_size = 0, char_width = 0, char_height = 0, xVelocity = 0, yVelocity = 0,
     collisionData = None, collisionEvents = [],
     movement = \<lparr>move_up = True, move_down = True, move_left = True, move_right = True\<rparr>,
     quiz = None, questions = [], direction = DirDown\<rparr>"

definition Character_constructor ::
    "char_class \<Rightarrow> SpriteData option \<Rightarrow> World \<Rightarrow> (js_error \<times> World) + (ref \<times> World)" where
  "Character_constructor k data w =
    (case data of
       None \<Rightarrow> Inl (TypeError, w)
     | Some d \<Rightarrow>
        (let r = next_ref w;
             cv = new_canvas d (layout w r);
             w1 = w\<lparr>next_ref := Suc r, container := container w @ [r]\<rparr>
         in if truthy_str (src d) then
              (let this = Character_fields k d cv w1;
                   w2 = w1\<lparr>gameObjects := gameObjects w1 @ [r]\<rparr>
               in Inr (r, w2\<lparr>heap := (heap w2)(r := Char (resize w2 this))\<rparr>))
            else Inl (Error ''Sprite data is required'', w1)))"

text \<open>
  \<open>Player\<close> adds its key bindings and two key listeners to what \<open>Character\<close> builds;
  neither is part of this model.
\<close>

definition Player_constructor ::
    "SpriteData option \<Rightarrow> World \<Rightarrow> (js_error \<times> World) + (ref \<times> World)" where
  "Player_constructor data w = Character_constructor PlayerClass data w"

text \<open>
  \<open>Prompt.shuffleArray\<close>: \<open>i\<close> runs from the last index down to 1; the \<open>k\<close>-th number
  of \<open>Math.random\<close> picks \<open>j\<close>, and the elements at \<open>i\<close> and \<open>j\<close> change places.
  \<open>Math.random\<close> returns numbers from 0 up to but not including 1, which keeps \<open>j\<close>
  between 0 and \<open>i\<close>.
\<close>

fun shuffle_from :: "nat \<Rightarrow> (nat \<Rightarrow> real) \<Rightarrow> nat \<Rightarrow> 'a list \<Rightarrow> 'a list" where
  "shuffle_from 0 rnd k array = array"
| "shuffle_from (Suc i') rnd k array =
    (let i = Suc i';
         j = nat \<lfloor>rnd k * real (i + 1)\<rfloor>
     in shuffle_from i' rnd (Suc k) (array[i := array ! j, j := array ! i]))"

definition shuffleArray :: "(nat \<Rightarrow> real) \<Rightarrow> nat \<Rightarrow> 'a list \<Rightarrow> 'a list" where
  "shuffleArray rnd k array = shuffle_from (length array - 1) rnd k array"

text \<open>
  The statements of the constructor of \<open>Npc\<close> after \<open>super(data)\<close>. \<open>this.quiz\<close> is
  the title of the quiz, a string. The questions are shuffled in place, so the array of
  the descriptor is shuffled with them.
\<close>

definition Npc_fields :: "World \<Rightarrow> Character \<Rightarrow> Character" where
  "Npc_fields w this =
    (let d = spriteData this;
         qs = (case data_quiz d of
                 None \<Rightarrow> []
               | Some q \<Rightarrow> (case quiz_questions q of None \<Rightarrow> [] | Some l \<Rightarrow> l));
         shuffled = shuffleArray (random w) (random_next w) qs
     in this\<lparr>quiz := (case data_quiz d of None \<Rightarrow> None | Some q \<Rightarrow> title q),
             questions := shuffled,
             spriteData := d\<lparr>data_quiz :=
               map_option (\<lambda>q. q\<lparr>quiz_questions := map_option (\<lambda>_. shuffled) (quiz_questions q)\<rparr>)
                 (data_quiz d)\<rparr>\<rparr>)"

definition Npc_constructor ::
    "SpriteData option \<Rightarrow> World \<Rightarrow> (js_error \<times> World) + (ref \<times> World)" where
  "Npc_constructor data w =
    (case Character_constructor NpcClass data w of
       Inl e \<Rightarrow> Inl e
     | Inr (r, w1) \<Rightarrow>
        Inr (r, case heap w1 r of
                  Background _ \<Rightarrow> w1
                | Char this \<Rightarrow>
                   w1\<lparr>heap := (heap w1)(r := Char (Npc_fields w1 this)),
                      random_next := random_next w1 + (length (questions (Npc_fields w1 this)) - 1)\<rparr>))"

text \<open>
  Modelled from the spec: the constructor of a background (\<open>Background.js\<close> is not among
  the sources) creates the entity from its descriptor and adds it to the registry.
\<close>

definition Background_constructor :: "SpriteData \<Rightarrow> World \<Rightarrow> ref \<times> World" where
  "Background_constructor d w =
    (let r = next_ref w
     in (r, w\<lparr>heap := (heap w)(r := Background d), next_ref := Suc r,
              gameObjects := gameObjects w @ [r]\<rparr>))"

subsection \<open>GameControl\<close>

datatype obj_class = BackgroundClass | CharClass char_class

definition empty_data :: SpriteData where
  "empty_data = \<lparr>data_id = None, greeting = None, src = None, SCALE_FACTOR = None,
     STEP_FACTOR = None, ANIMATION_RATE = None, INIT_POSITION = None, pixels = None,
     data_hitbox = None, data_quiz = None, orientation = None, frames = (\<lambda>_. None)\<rparr>"

text \<open>\<open>new Character(data)\<close>, \<open>new Player(data)\<close> or \<open>new Npc(data)\<close>.\<close>

definition new_character ::
    "char_class \<Rightarrow> SpriteData option \<Rightarrow> World \<Rightarrow> (js_error \<times> World) + (ref \<times> World)" where
  "new_character k data w =
    (case k of
       CharacterClass \<Rightarrow> Character_constructor CharacterClass data w
     | PlayerClass \<Rightarrow> Player_constructor data w
     | NpcClass \<Rightarrow> Npc_constructor data w)"

text \<open>\<open>new object.class(object.data)\<close>, the new reference dropped as the loop drops it.\<close>

definition new_object :: "obj_class \<Rightarrow> SpriteData \<Rightarrow> World \<Rightarrow> (js_error \<times> World) + World" where
  "new_object c d w =
    (case c of
       BackgroundClass \<Rightarrow> Inr (snd (Background_constructor d w))
     | CharClass k \<Rightarrow> map_sum id snd (new_character k (Some d) w))"

text \<open>
  A level class is given the width and height of the game area, which its constructor
  reads from \<open>GameEnv\<close>, and yields its list \<open>objects\<close>.
\<close>

type_synonym LevelClass = "real \<Rightarrow> real \<Rightarrow> (obj_class \<times> SpriteData option) list"

record GameControl =
  currentLevelIndex :: nat
  currentPass :: nat
  levelClasses :: "LevelClass list"

text \<open>The loop of \<open>loadLevelObjects\<close>; a missing \<open>data\<close> becomes the empty object.\<close>

fun instantiate :: "(obj_class \<times> SpriteData option) list \<Rightarrow> World \<Rightarrow> (js_error \<times> World) + World" where
  "instantiate [] w = Inr w"
| "instantiate ((c, data) # objects) w =
    (case new_object c (case data of None \<Rightarrow> empty_data | Some d \<Rightarrow> d) w of
       Inl e \<Rightarrow> Inl e
     | Inr w' \<Rightarrow> instantiate objects w')"

text \<open>
  The nominal case of \<open>gameLoop\<close>: every object of the registry is updated in the order
  of the array, then \<open>handleLevelStart\<close> counts the pass. An error of an update ends the
  tick there. The dialogs, the drawing on the shared canvas, the statistics and the timer
  are not part of this model.
\<close>

fun update_each :: "ref list \<Rightarrow> World \<Rightarrow> (js_error \<times> World) + World" where
  "update_each [] w = Inr w"
| "update_each (object # objects) w =
    (case update object w of Inl e \<Rightarrow> Inl e | Inr w' \<Rightarrow> update_each objects w')"

definition run_tick ::
    "GameControl \<Rightarrow> World \<Rightarrow> (js_error \<times> GameControl \<times> World) + (GameControl \<times> World)" where
  "run_tick gc w =
    (case update_each (gameObjects w) w of
       Inl (e, w') \<Rightarrow> Inl (e, gc, w')
     | Inr w' \<Rightarrow> Inr (gc\<lparr>currentPass := currentPass gc + 1\<rparr>, w'))"

text \<open>
  \<open>loadLevel\<close> with \<open>loadLevelObjects\<close>. The call of \<open>gameLoop\<close> that ends
  \<open>loadLevelObjects\<close> finds \<open>continueLevel\<close> set, since \<open>loadLevel\<close> has just set it and
  no constructor clears it, so it runs the nominal case.
\<close>

definition loadLevel ::
    "GameControl \<Rightarrow> World \<Rightarrow> (js_error \<times> GameControl \<times> World) + (GameControl \<times> World)" where
  "loadLevel gc w =
    (if currentLevelIndex gc \<ge> length (levelClasses gc) then Inr (gc, w)
     else
       (let w1 = w\<lparr>continueLevel := True, gameObjects := []\<rparr>;
            gc1 = gc\<lparr>currentPass := 0\<rparr>;
            levelInstance = (levelClasses gc ! currentLevelIndex gc) (innerWidth w1) (innerHeight w1)
        in case instantiate levelInstance w1 of
             Inl (e, w') \<Rightarrow> Inl (e, gc1, w')
           | Inr w2 \<Rightarrow> run_tick gc1 w2))"

text \<open>
  The teardown loop of \<open>handleLevelEnd\<close>; the first argument is \<open>index + 1\<close>. Reading the
  array past its end yields \<open>undefined\<close>, and calling \<open>destroy\<close> on it is a \<open>TypeError\<close>.
\<close>

fun teardown :: "nat \<Rightarrow> World \<Rightarrow> (js_error \<times> World) + World" where
  "teardown 0 w = Inr w"
| "teardown (Suc index) w =
    (if index < length (gameObjects w) then
       (case destroy (gameObjects w ! index) w of
          Inl e \<Rightarrow> Inl e
        | Inr w' \<Rightarrow> teardown index w')
     else Inl (TypeError, w))"

definition handleLevelEnd ::
    "GameControl \<Rightarrow> World \<Rightarrow> (js_error \<times> GameControl \<times> World) + (GameControl \<times> World)" where
  "handleLevelEnd gc w =
    (case teardown (length (gameObjects w)) w of
       Inl (e, w') \<Rightarrow> Inl (e, gc, w')
     | Inr w1 \<Rightarrow> loadLevel (gc\<lparr>currentLevelIndex := currentLevelIndex gc + 1\<rparr>) w1)"

definition gameLoop ::
    "GameControl \<Rightarrow> World \<Rightarrow> (js_error \<times> GameControl \<times> World) + (GameControl \<times> World)" where
  "gameLoop gc w =
    (if \<not> continueLevel w then handleLevelEnd gc w else run_tick gc w)"

subsection \<open>Prompt\<close>

text \<open>
  The panel. A question row holds a cell with the numbered question and a cell with one
  text input that is tagged with the index of the question. \<open>dim_divs\<close> counts the
  elements with id \<open>dim\<close>, \<open>title_attached\<close> says whether the element with id
  \<open>promptTitle\<close> is in the document, and \<open>dropDown\<close> lists the children of the panel.
\<close>

datatype table_row = HeaderRow string | QuestionRow string nat | SubmitRow | NoQuestionsRow

datatype panel_node = TitleNode | TableContainer "table_row list"

record Prompt =
  isOpen :: bool
  currentNpc :: "Character option"
  dim_divs :: nat
  title_attached :: bool
  title_html :: string
  title_display :: string
  dropDown :: "panel_node list"

fun string_of_nat :: "nat \<Rightarrow> string" where
  "string_of_nat n =
    (if n < 10 then [''0123456789'' ! n]
     else string_of_nat (n div 10) @ [''0123456789'' ! (n mod 10)])"

declare string_of_nat.simps [simp del]

definition initializePrompt :: "Prompt \<Rightarrow> Prompt" where
  "initializePrompt p =
     p\<lparr>title_attached := True, title_html := [], title_display := [],
       dropDown := dropDown p @ [TitleNode]\<rparr>"

text \<open>
  \<open>backgroundDim.remove\<close>: with no element \<open>dim\<close> the call of \<open>remove\<close> on null is a
  \<open>TypeError\<close>. The name \<open>promptTitle\<close> is resolved through the document, so it is a
  \<open>ReferenceError\<close> when the title is not attached.
\<close>

definition backgroundDim_remove :: "Prompt \<Rightarrow> (js_error \<times> Prompt) + Prompt" where
  "backgroundDim_remove p =
    (if dim_divs p = 0 then Inl (TypeError, p)
     else
       (let p1 = p\<lparr>dim_divs := dim_divs p - 1, isOpen := False\<rparr>
        in if title_attached p1 then Inr (p1\<lparr>title_display := ''none''\<rparr>)
           else Inl (ReferenceError, p1)))"

definition backgroundDim_create :: "Prompt \<Rightarrow> Prompt" where
  "backgroundDim_create p = p\<lparr>dim_divs := dim_divs p + 1\<rparr>"

definition question_rows :: "string list \<Rightarrow> table_row list" where
  "question_rows qs =
     map (\<lambda>(index, question). QuestionRow (string_of_nat (index + 1) @ ''. '' @ question) index)
       (enumerate 0 qs)"

definition updatePromptTable :: "Prompt \<Rightarrow> panel_node" where
  "updatePromptTable p =
     TableContainer (HeaderRow ''Answer the Questions Below:'' #
       (case currentNpc p of
          Some npc \<Rightarrow> question_rows (questions npc) @ [SubmitRow]
        | None \<Rightarrow> [NoQuestionsRow]))"

text \<open>A string of JavaScript has no property \<open>title\<close>: reading it yields \<open>undefined\<close>.\<close>

definition title_of_string :: "string \<Rightarrow> string option" where
  "title_of_string s = None"

text \<open>
  \<open>openPromptPanel\<close>. The title element is looked up first. Emptying the panel detaches
  it; it is attached again when it is appended below. \<open>npc.quiz\<close> is the string that
  the constructor of \<open>Npc\<close> stored, or \<open>undefined\<close>, on which \<open>.title\<close> is a
  \<open>TypeError\<close>.
\<close>

definition openPromptPanel :: "Character \<Rightarrow> Prompt \<Rightarrow> (js_error \<times> Prompt) + Prompt" where
  "openPromptPanel npc p =
    (case (if isOpen p then backgroundDim_remove p else Inr p) of
       Inl e \<Rightarrow> Inl e
     | Inr p1 \<Rightarrow>
        (let p2 = p1\<lparr>currentNpc := Some npc, isOpen := True, dropDown := [],
                    title_attached := False\<rparr>
         in if \<not> title_attached p then Inl (TypeError, p2)
            else
              (let p3 = p2\<lparr>title_display := ''block''\<rparr>
               in case quiz npc of
                    None \<Rightarrow> Inl (TypeError, p3)
                  | Some q \<Rightarrow>
                     (let p4 = p3\<lparr>title_html := str_or (title_of_string q) ''Questions''\<rparr>;
                          p5 = p4\<lparr>dropDown := [TitleNode], title_attached := True\<rparr>;
                          p6 = p5\<lparr>dropDown := dropDown p5 @ [updatePromptTable p5]\<rparr>
                      in Inr (backgroundDim_create p6)))))"

text \<open>What the panel shows: its title, and the text inputs in document order.\<close>

fun row_inputs :: "table_row \<Rightarrow> nat list" where
  "row_inputs (QuestionRow text index) = [index]"
| "row_inputs _ = []"

fun node_inputs :: "panel_node \<Rightarrow> nat list" where
  "node_inputs (TableContainer rows) = concat (map row_inputs rows)"
| "node_inputs TitleNode = []"

definition text_inputs :: "Prompt \<Rightarrow> nat list" where
  "text_inputs p = concat (map node_inputs (dropDown p))"

definition displayed_title :: "Prompt \<Rightarrow> string option" where
  "displayed_title p =
    (if TitleNode \<in> set (dropDown p) \<and> title_display p = ''block'' then Some (title_html p)
     else None)"


subsection \<open>The collision detector as the specification words it\<close>

text \<open>
  The inset rectangle: the left edge moved right by width times the width inset, the top
  edge moved down by height times the height inset, the right edge moved left by width
  times the width inset, the bottom edge unchanged.
\<close>

record Box =
  box_left :: real
  box_top :: real
  box_right :: real
  box_bottom :: real

definition inset_box :: "DOMRect \<Rightarrow> real \<Rightarrow> real \<Rightarrow> Box" where
  "inset_box r insetW insetH =
    \<lparr>box_left = rect_left r + rect_width r * insetW,
     box_top = rect_top r + rect_height r * insetH,
     box_right = rect_right r - rect_width r * insetW,
     box_bottom = rect_bottom r\<rparr>"

definition inset_of :: "Character \<Rightarrow> Box" where
  "inset_of c = inset_box (getBoundingClientRect (canvas c))
     (num_or (widthPercentage (hitbox c)) 0) (num_or (heightPercentage (hitbox c)) 0)"

text \<open>Overlap with strict comparisons on all four edges.\<close>

definition boxes_overlap :: "Box \<Rightarrow> Box \<Rightarrow> bool" where
  "boxes_overlap a b =
    (box_left a < box_right b \<and> box_left b < box_right a \<and>
     box_top a < box_bottom b \<and> box_top b < box_bottom a)"

text \<open>A rectangle given by its four edges, and an object placed on it with no inset.\<close>

definition rect_of_edges :: "real \<Rightarrow> real \<Rightarrow> real \<Rightarrow> real \<Rightarrow> DOMRect" where
  "rect_of_edges l t r b =
    \<lparr>rect_left = l, rect_top = t, rect_width = r - l, rect_height = b - t\<rparr>"

definition placed :: "Character \<Rightarrow> DOMRect \<Rightarrow> Character" where
  "placed c r = c\<lparr>canvas := (canvas c)\<lparr>canvas_rect := r\<rparr>,
                  hitbox := \<lparr>widthPercentage = None, heightPercentage = None\<rparr>\<rparr>"


subsection \<open>Words for the statements about collisionChecks\<close>

text \<open>
  The partners of \<open>this\<close> in a pass: the other objects of the registry that have a
  canvas, in the order of the array. \<open>hits\<close> says that a partner registers a hit.
\<close>

definition partners :: "World \<Rightarrow> ref \<Rightarrow> Character list" where
  "partners w r =
    concat (map (\<lambda>g. case heap w g of Background _ \<Rightarrow> [] | Char c \<Rightarrow> if r \<noteq> g then [c] else [])
      (gameObjects w))"

definition hits :: "Character \<Rightarrow> Character \<Rightarrow> bool" where
  "hits this other = boxes_overlap (inset_of this) (inset_of other)"

text \<open>One round of the loop for a partner that is known to be checked.\<close>

definition check_one :: "Character \<times> bool \<Rightarrow> Character \<Rightarrow> Character \<times> bool" where
  "check_one s other =
    (let this1 = isCollision (fst s) other
     in if collision_hit this1 then (handleCollisionEvent this1, True) else (this1, snd s))"

definition record_id :: "string list \<Rightarrow> string \<Rightarrow> string list" where
  "record_id ev i = (if i \<in> set ev then ev else ev @ [i])"

text \<open>
  The movement flags that one set of touch points leaves behind: all four reset to true,
  then each touched side forbids the direction the source names for it.
\<close>

definition movement_of :: "TouchSide \<Rightarrow> Movement" where
  "movement_of tp =
    \<lparr>move_up = \<not> touch_bottom tp, move_down = \<not> touch_top tp,
     move_left = \<not> touch_right tp, move_right = \<not> touch_left tp\<rparr>"

text \<open>The flags that merging over several partners would give: a direction stays free
  only if every partner leaves it free.\<close>

definition merged_movement :: "Movement \<Rightarrow> Movement \<Rightarrow> Movement" where
  "merged_movement a b =
    \<lparr>move_up = (move_up a \<and> move_up b), move_down = (move_down a \<and> move_down b),
     move_left = (move_left a \<and> move_left b), move_right = (move_right a \<and> move_right b)\<rparr>"

definition same_shape :: "Character \<Rightarrow> Character \<Rightarrow> bool" where
  "same_shape a b = (canvas a = canvas b \<and> hitbox a = hitbox b \<and> spriteData a = spriteData b)"

subsection \<open>Sample levels\<close>

text \<open>
  A game area of 1000 by 800 with no header, in which nothing has been created yet. The
  browser puts a new canvas at the origin, and \<open>Math.random\<close> returns 0 each time.
\<close>

definition world0 :: World where
  "world0 = \<lparr>heap = (\<lambda>_. Background empty_data), next_ref = 0, gameObjects = [],
     container = [], continueLevel = True, innerWidth = 1000, innerHeight = 800,
     env_top = 0, layout = (\<lambda>_. (0, 0)), random = (\<lambda>_. 0), random_next = 0\<rparr>"

text \<open>
  Descriptors in the shape of those of \<open>GameLevelDesert\<close> and \<open>GameLevelWater\<close>: the
  player's numbers are those of Chill Guy, the others' those of Tux and Octocat, each
  quiz cut down to two questions. The positions are arguments.
\<close>

definition image_data :: "string \<Rightarrow> SpriteData" where
  "image_data name = empty_data\<lparr>data_id := Some name, src := Some ''/images/gamify/desert.png'',
     pixels := Some (1038, 580)\<rparr>"

definition sprite_data_player :: "string \<Rightarrow> Vec \<Rightarrow> SpriteData" where
  "sprite_data_player name p =
    \<lparr>data_id = Some name, greeting = Some ''Hi I am Chill Guy, the desert wanderer.'',
     src = Some ''/images/gamify/chillguy.png'', SCALE_FACTOR = Some 5,
     STEP_FACTOR = Some 1000, ANIMATION_RATE = Some 50, INIT_POSITION = Some p,
     pixels = Some (512, 384),
     data_hitbox = Some \<lparr>widthPercentage = Some 0.45, heightPercentage = Some 0.2\<rparr>,
     data_quiz = None,
     orientation = Some (3, 4),
     frames = (\<lambda>_. None)
       (DirDown := Some \<lparr>dir_row = 0, dir_start = 0, dir_columns = 3\<rparr>,
        DirLeft := Some \<lparr>dir_row = 2, dir_start = 0, dir_columns = 3\<rparr>,
        DirRight := Some \<lparr>dir_row = 1, dir_start = 0, dir_columns = 3\<rparr>,
        DirUp := Some \<lparr>dir_row = 3, dir_start = 0, dir_columns = 3\<rparr>)\<rparr>"

definition sprite_data_npc :: "string \<Rightarrow> Vec \<Rightarrow> SpriteData" where
  "sprite_data_npc name p =
    \<lparr>data_id = Some name, greeting = Some ''Hi I am Tux, the Linux mascot.'',
     src = Some ''/images/gamify/tux.png'', SCALE_FACTOR = Some 8,
     STEP_FACTOR = None, ANIMATION_RATE = Some 50, INIT_POSITION = Some p,
     pixels = Some (352, 256),
     data_hitbox = Some \<lparr>widthPercentage = Some 0.1, heightPercentage = Some 0.2\<rparr>,
     data_quiz = Some \<lparr>title = Some ''Linux Command Quiz'',
       quiz_questions = Some [''Which command is used to list files in a directory?'',
                              ''Which command is used to change directories?'']\<rparr>,
     orientation = Some (8, 11),
     frames = (\<lambda>_. None)(DirDown := Some \<lparr>dir_row = 5, dir_start = 0, dir_columns = 3\<rparr>)\<rparr>"

definition LevelA :: LevelClass where
  "LevelA width height =
    [(BackgroundClass, Some (image_data ''desert'')),
     (CharClass PlayerClass, Some (sprite_data_player ''Chill Guy'' \<lparr>vx = 400, vy = 300\<rparr>)),
     (CharClass NpcClass, Some (sprite_data_npc ''Tux'' \<lparr>vx = 470, vy = 300\<rparr>)),
     (CharClass NpcClass, Some (sprite_data_npc ''Octocat'' \<lparr>vx = 390, vy = 340\<rparr>)),
     (CharClass NpcClass, Some (sprite_data_npc ''Robot'' \<lparr>vx = width * 3 / 4, vy = height * 3 / 4\<rparr>))]"

definition LevelB :: LevelClass where
  "LevelB width height =
    [(BackgroundClass, Some (image_data ''Water'')),
     (CharClass PlayerClass,
        Some (sprite_data_player ''Octopus'' \<lparr>vx = 0, vy = height - height / 5\<rparr>))]"

definition control0 :: GameControl where
  "control0 = \<lparr>currentLevelIndex = 0, currentPass = 0, levelClasses = [LevelA, LevelB]\<rparr>"

text \<open>
  The objects of \<open>LevelA\<close> as their constructors build them in \<open>world0\<close> and their
  first \<open>draw\<close> places them, and the world that holds them. The moving player is the
  sample player after one press of the key for right and one of the key for up, and the
  moving scene is the scene with that player.
\<close>

definition sample_player :: Character where
  "sample_player = draw_style world0 (resize world0
     (Character_fields PlayerClass (sprite_data_player ''Chill Guy'' \<lparr>vx = 400, vy = 300\<rparr>)
        (new_canvas (sprite_data_player ''Chill Guy'' \<lparr>vx = 400, vy = 300\<rparr>) (0, 0)) world0))"

definition sample_npc :: "string \<Rightarrow> Vec \<Rightarrow> Character" where
  "sample_npc name p = draw_style world0 (Npc_fields world0 (resize world0
     (Character_fields NpcClass (sprite_data_npc name p)
        (new_canvas (sprite_data_npc name p) (0, 0)) world0)))"

definition scene :: World where
  "scene = world0
    \<lparr>heap := (\<lambda>_. Background empty_data)
       (0 := Background (image_data ''desert''),
        1 := Char sample_player,
        2 := Char (sample_npc ''Tux'' \<lparr>vx = 470, vy = 300\<rparr>),
        3 := Char (sample_npc ''Octocat'' \<lparr>vx = 390, vy = 340\<rparr>),
        4 := Char (sample_npc ''Robot'' \<lparr>vx = 750, vy = 600\<rparr>)),
     next_ref := 5, gameObjects := [0, 1, 2, 3, 4], container := [1, 2, 3, 4]\<rparr>"

definition moving_player :: Character where
  "moving_player = sample_player\<lparr>velocity := \<lparr>vx = 1, vy = - (4 / 5)\<rparr>, direction := DirUp\<rparr>"

definition moving_scene :: World where
  "moving_scene = scene\<lparr>heap := (heap scene)(1 := Char moving_player)\<rparr>"

text \<open>
  Tux with a descriptor that has no \<open>orientation\<close>, and the scene with that Tux.
\<close>

definition bare_npc :: Character where
  "bare_npc = (sample_npc ''Tux'' \<lparr>vx = 470, vy = 300\<rparr>)
     \<lparr>spriteData := (spriteData (sample_npc ''Tux'' \<lparr>vx = 470, vy = 300\<rparr>))
        \<lparr>orientation := None\<rparr>\<rparr>"

definition bare_scene :: World where
  "bare_scene = scene\<lparr>heap := (heap scene)(2 := Char bare_npc)\<rparr>"

text \<open>
  The scene at the end of its level, once with every canvas in place and once with the
  canvas of the player taken out of the container.
\<close>

definition scene_end :: World where
  "scene_end = scene\<lparr>continueLevel := False\<rparr>"

definition scene_detached :: World where
  "scene_detached = scene\<lparr>continueLevel := False, container := [2, 3, 4]\<rparr>"

text \<open>
  A game area that is narrower than its objects: 100 wide and 1000 high, with a player
  at the position \<open>GameLevelDesert\<close> gives Chill Guy there and a stationary character
  at three quarters of the width and height, both as their constructors build them.
\<close>

definition narrow_world :: World where
  "narrow_world = world0\<lparr>innerWidth := 100, innerHeight := 1000\<rparr>"

definition narrow_player :: Character where
  "narrow_player = resize narrow_world
     (Character_fields PlayerClass (sprite_data_player ''Chill Guy'' \<lparr>vx = 0, vy = 800\<rparr>)
        (new_canvas (sprite_data_player ''Chill Guy'' \<lparr>vx = 0, vy = 800\<rparr>) (0, 0))
        narrow_world)"

definition narrow_npc :: Character where
  "narrow_npc = Npc_fields narrow_world (resize narrow_world
     (Character_fields NpcClass (sprite_data_npc ''Robot'' \<lparr>vx = 75, vy = 750\<rparr>)
        (new_canvas (sprite_data_npc ''Robot'' \<lparr>vx = 75, vy = 750\<rparr>) (0, 0)) narrow_world))"

definition narrow :: World where
  "narrow = narrow_world
    \<lparr>heap := (\<lambda>_. Background empty_data)(0 := Char narrow_player, 1 := Char narrow_npc),
     next_ref := 2, gameObjects := [0, 1], container := [0, 1]\<rparr>"

subsection \<open>Words for the statements about update\<close>

definition character_at :: "World \<Rightarrow> ref \<Rightarrow> Character option" where
  "character_at w r = (case heap w r of Char c \<Rightarrow> Some c | Background _ \<Rightarrow> None)"

text \<open>The rectangle of the object lies within the game area.\<close>

definition within_viewport :: "World \<Rightarrow> Character \<Rightarrow> bool" where
  "within_viewport w c =
    (0 \<le> vx (position c) \<and> vx (position c) \<le> innerWidth w - char_width c \<and>
     0 \<le> vy (position c) \<and> vy (position c) \<le> innerHeight w - char_height c)"

text \<open>The object behind a reference after its \<open>update\<close> has returned.\<close>

definition character_after_update :: "World \<Rightarrow> ref \<Rightarrow> Character option" where
  "character_after_update w r =
    (case update r w of Inl _ \<Rightarrow> None | Inr w' \<Rightarrow> character_at w' r)"

text \<open>Where the update of the object returns, it leaves the object within the game area.\<close>

definition stays_inside :: "World \<Rightarrow> ref \<Rightarrow> bool" where
  "stays_inside w r =
    (case character_after_update w r of Some c \<Rightarrow> within_viewport w c | None \<Rightarrow> True)"

text \<open>\<open>draw\<close> finds in the descriptor what it reads.\<close>

definition drawable :: "Character \<Rightarrow> bool" where
  "drawable c =
    (pixels (spriteData c) \<noteq> None \<and> orientation (spriteData c) \<noteq> None \<and>
     frames (spriteData c) (direction c) \<noteq> None)"

text \<open>
  The velocity after a hit with the given touch points: a component that moves into a
  touched side is set to 0. And the coordinate after the two tests on one axis: first
  against the far boundary, then against 0.
\<close>

definition stop_at :: "TouchSide \<Rightarrow> Vec \<Rightarrow> Vec" where
  "stop_at tp v =
    \<lparr>vx = (if (touch_right tp \<and> vx v < 0) \<or> (touch_left tp \<and> vx v > 0) then 0 else vx v),
     vy = (if (touch_top tp \<and> vy v > 0) \<or> (touch_bottom tp \<and> vy v < 0) then 0 else vy v)\<rparr>"

definition checked_velocity :: "World \<Rightarrow> ref \<Rightarrow> Character \<Rightarrow> Vec" where
  "checked_velocity w r t =
    foldl (\<lambda>v other. stop_at (touch_this (collision_result t other)) v) (velocity t)
      (filter (hits t) (partners w r))"

definition clamp_axis :: "real \<Rightarrow> real \<Rightarrow> real \<Rightarrow> real" where
  "clamp_axis limit extent x =
    (let x1 = (if x + extent > limit then limit - extent else x)
     in if x1 < 0 then 0 else x1)"

text \<open>The fields that hold the collision state of an object.\<close>

definition collision_state :: "Character \<Rightarrow> CollisionData option \<times> string list \<times> Movement \<times> Vec" where
  "collision_state c = (collisionData c, collisionEvents c, movement c, velocity c)"

subsection \<open>Words for the statements about the registry\<close>

text \<open>
  What every constructor and every \<open>destroy\<close> keeps true of the registry: no object is
  in it twice, every object in it has been created, and the canvas of every character
  in it is a child of the container.
\<close>

definition registry_ok :: "World \<Rightarrow> bool" where
  "registry_ok w =
    (distinct (gameObjects w) \<and>
     (\<forall>r \<in> set (gameObjects w). r < next_ref w) \<and>
     (\<forall>r \<in> set (gameObjects w).
        case heap w r of Char _ \<Rightarrow> r \<in> set (container w) | Background _ \<Rightarrow> True))"

text \<open>Destroying the given objects one after the other, in the order of the list.\<close>

fun destroy_each :: "ref list \<Rightarrow> World \<Rightarrow> (js_error \<times> World) + World" where
  "destroy_each [] w = Inr w"
| "destroy_each (r # rs) w =
    (case destroy r w of Inl e \<Rightarrow> Inl e | Inr w' \<Rightarrow> destroy_each rs w')"

text \<open>
  Every character of a level's list has a descriptor with a sprite source and with what
  \<open>draw\<close> reads for an object that faces down, as every new object does.
\<close>

definition level_ok :: "(obj_class \<times> SpriteData option) list \<Rightarrow> bool" where
  "level_ok objects =
    list_all (\<lambda>(c, data). case c of
        BackgroundClass \<Rightarrow> True
      | CharClass k \<Rightarrow>
         (case data of
            None \<Rightarrow> False
          | Some d \<Rightarrow> truthy_str (src d) \<and> pixels d \<noteq> None \<and> orientation d \<noteq> None
                       \<and> frames d DirDown \<noteq> None))
      objects"

text \<open>Every character of the registry has what \<open>draw\<close> reads.\<close>

definition all_drawable :: "World \<Rightarrow> bool" where
  "all_drawable w =
    list_all (\<lambda>r. case heap w r of Char c \<Rightarrow> drawable c | Background _ \<Rightarrow> True)
      (gameObjects w)"

text \<open>The panel of a page on which \<open>initializePrompt\<close> has run, and nothing else.\<close>

definition prompt0 :: Prompt where
  "prompt0 = initializePrompt
     \<lparr>isOpen = False, currentNpc = None, dim_divs = 0, title_attached = False,
      title_html = [], title_display = [], dropDown = []\<rparr>"

section \<open>Theorems\<close>

subsection \<open>The collision detector\<close>

lemma collision_hit_isCollision:
  "collision_hit (isCollision this other) = boxes_overlap (inset_of this) (inset_of other)"
  by (auto simp: collision_hit_def isCollision_def collision_result_def boxes_overlap_def
      inset_of_def inset_box_def Let_def)

text \<open>
  C2. \<open>isCollision\<close> reports a hit exactly when the two inset rectangles overlap under
  strict comparisons on all four edges. With no inset, the rectangles [0,0,50,50] and
  [40,40,90,90] hit, and two rectangles that only share an edge do not.
\<close>

theorem isCollision_hit_iff_inset_overlap:
  "collision_hit (isCollision this other) = boxes_overlap (inset_of this) (inset_of other)
   \<and> collision_hit (isCollision (placed this (rect_of_edges 0 0 50 50))
                                 (placed other (rect_of_edges 40 40 90 90)))
   \<and> \<not> collision_hit (isCollision (placed this (rect_of_edges 0 0 50 50))
                                   (placed other (rect_of_edges 50 0 100 50)))"
  by (simp add: collision_hit_isCollision boxes_overlap_def inset_of_def inset_box_def
      placed_def rect_of_edges_def getBoundingClientRect_def rect_right_def rect_bottom_def
      num_or_def)

subsection \<open>One round of the loop of collisionChecks\<close>

lemma foldl_step_partners:
  "foldl (collisionChecks_step h r) s gs =
   foldl check_one s
     (concat (map (\<lambda>g. case h g of Background _ \<Rightarrow> [] | Char c \<Rightarrow> if r \<noteq> g then [c] else [])
        gs))"
  by (induction gs arbitrary: s)
     (simp_all add: collisionChecks_step_def check_one_def split: gameObject.splits)

lemma on_touch_frame:
  "canvas (on_touch_top t) = canvas t" "hitbox (on_touch_top t) = hitbox t"
  "spriteData (on_touch_top t) = spriteData t"
  "collisionEvents (on_touch_top t) = collisionEvents t"
  "collisionData (on_touch_top t) = collisionData t"
  "canvas (on_touch_bottom t) = canvas t" "hitbox (on_touch_bottom t) = hitbox t"
  "spriteData (on_touch_bottom t) = spriteData t"
  "collisionEvents (on_touch_bottom t) = collisionEvents t"
  "collisionData (on_touch_bottom t) = collisionData t"
  "canvas (on_touch_left t) = canvas t" "hitbox (on_touch_left t) = hitbox t"
  "spriteData (on_touch_left t) = spriteData t"
  "collisionEvents (on_touch_left t) = collisionEvents t"
  "collisionData (on_touch_left t) = collisionData t"
  "canvas (on_touch_right t) = canvas t" "hitbox (on_touch_right t) = hitbox t"
  "spriteData (on_touch_right t) = spriteData t"
  "collisionEvents (on_touch_right t) = collisionEvents t"
  "collisionData (on_touch_right t) = collisionData t"
  by (simp_all add: on_touch_top_def on_touch_bottom_def on_touch_left_def on_touch_right_def
      Let_def)

lemma on_touch_movement:
  "movement (on_touch_top t) = (movement t)\<lparr>move_down := False\<rparr>"
  "movement (on_touch_bottom t) = (movement t)\<lparr>move_up := False\<rparr>"
  "movement (on_touch_right t) = (movement t)\<lparr>move_left := False\<rparr>"
  "movement (on_touch_left t) = (movement t)\<lparr>move_right := False\<rparr>"
  by (simp_all add: on_touch_top_def on_touch_bottom_def on_touch_left_def on_touch_right_def
      Let_def)

lemma handleCollisionState_frame:
  "canvas (handleCollisionState t) = canvas t"
  "hitbox (handleCollisionState t) = hitbox t"
  "spriteData (handleCollisionState t) = spriteData t"
  "collisionEvents (handleCollisionState t) = collisionEvents t"
  "collisionData (handleCollisionState t) = collisionData t"
  by (simp_all add: handleCollisionState_def Let_def on_touch_frame split: option.splits)

lemma handleCollisionState_movement:
  "collisionData t = Some d \<Longrightarrow> collisionEvents t \<noteq> [] \<Longrightarrow>
   movement (handleCollisionState t) = movement_of (touch_this d)"
  by (simp add: handleCollisionState_def Let_def on_touch_movement movement_of_def)

lemma handleCollisionEvent_frame:
  "canvas (handleCollisionEvent t) = canvas t"
  "hitbox (handleCollisionEvent t) = hitbox t"
  "spriteData (handleCollisionEvent t) = spriteData t"
  "collisionData (handleCollisionEvent t) = collisionData t"
  by (simp_all add: handleCollisionEvent_def handleCollisionReaction_def
      handleCollisionState_frame Let_def split: option.splits)

lemma handleCollisionEvent_events:
  "collisionData t = Some d \<Longrightarrow>
   collisionEvents (handleCollisionEvent t) =
     record_id (collisionEvents t) (touch_id (touch_other d))"
  by (simp add: handleCollisionEvent_def handleCollisionReaction_def handleCollisionState_frame
      record_id_def Let_def)

lemma handleCollisionEvent_movement:
  assumes d: "collisionData t = Some d"
  shows "movement (handleCollisionEvent t) = movement_of (touch_this d)"
proof (cases "touch_id (touch_other d) \<in> set (collisionEvents t)")
  case True
  then have "collisionEvents t \<noteq> []" by auto
  with d True show ?thesis
    by (simp add: handleCollisionEvent_def handleCollisionState_movement Let_def)
next
  case False
  let ?t = "t\<lparr>collisionEvents := collisionEvents t @ [touch_id (touch_other d)]\<rparr>"
  have "movement (handleCollisionState ?t) = movement_of (touch_this d)"
    by (rule handleCollisionState_movement) (simp_all add: d)
  with d False show ?thesis
    by (simp add: handleCollisionEvent_def handleCollisionReaction_def Let_def)
qed

lemma isCollision_frame:
  "canvas (isCollision t other) = canvas t"
  "hitbox (isCollision t other) = hitbox t"
  "spriteData (isCollision t other) = spriteData t"
  "collisionEvents (isCollision t other) = collisionEvents t"
  "movement (isCollision t other) = movement t"
  "velocity (isCollision t other) = velocity t"
  "collisionData (isCollision t other) = Some (collision_result t other)"
  by (simp_all add: isCollision_def)

lemma collision_result_same_shape:
  "same_shape a b \<Longrightarrow> collision_result a other = collision_result b other"
  unfolding same_shape_def collision_result_def by (elim conjE) (simp only:)

lemma hits_same_shape: "same_shape a b \<Longrightarrow> hits a other = hits b other"
  by (simp add: same_shape_def hits_def inset_of_def)

lemma touch_other_id:
  "touch_id (touch_other (collision_result t other)) = canvas_id (canvas other)"
  by (simp add: collision_result_def Let_def)

lemma check_one_shape: "same_shape (fst (check_one s other)) (fst s)"
  by (simp add: check_one_def Let_def same_shape_def isCollision_frame
      handleCollisionEvent_frame)

lemma check_one_data:
  "collisionData (fst (check_one s other)) = Some (collision_result (fst s) other)"
  by (simp add: check_one_def Let_def isCollision_frame handleCollisionEvent_frame)

lemma check_one_detected: "snd (check_one s other) = (snd s \<or> hits (fst s) other)"
  by (simp add: check_one_def Let_def collision_hit_isCollision hits_def)

lemma check_one_events:
  "collisionEvents (fst (check_one s other)) =
    (if hits (fst s) other then record_id (collisionEvents (fst s)) (canvas_id (canvas other))
     else collisionEvents (fst s))"
  by (simp add: check_one_def Let_def collision_hit_isCollision hits_def isCollision_frame
      handleCollisionEvent_events touch_other_id)

lemma check_one_movement:
  "movement (fst (check_one s other)) =
    (if hits (fst s) other then movement_of (touch_this (collision_result (fst s) other))
     else movement (fst s))"
  by (simp add: check_one_def Let_def collision_hit_isCollision hits_def isCollision_frame
      handleCollisionEvent_movement)

lemma same_shape_trans: "same_shape a b \<Longrightarrow> same_shape b c \<Longrightarrow> same_shape a c"
  by (simp add: same_shape_def)

lemma foldl_check_shape: "same_shape (fst (foldl check_one s P)) (fst s)"
proof (induction P arbitrary: s)
  case Nil
  show ?case by (simp add: same_shape_def)
next
  case (Cons p P)
  from Cons.IH [of "check_one s p"] check_one_shape [of s p]
  show ?case by (simp add: same_shape_trans)
qed

lemma foldl_check_detected:
  "snd (foldl check_one s P) = (snd s \<or> (\<exists>other \<in> set P. hits (fst s) other))"
proof (induction P arbitrary: s)
  case Nil
  show ?case by simp
next
  case (Cons p P)
  have "\<And>other. hits (fst (check_one s p)) other = hits (fst s) other"
    by (rule hits_same_shape) (rule check_one_shape)
  with Cons.IH [of "check_one s p"] show ?case
    by (auto simp: check_one_detected)
qed

lemma foldl_check_events:
  "collisionEvents (fst (foldl check_one s P)) =
   foldl record_id (collisionEvents (fst s))
     (map (\<lambda>other. canvas_id (canvas other)) (filter (hits (fst s)) P))"
proof (induction P arbitrary: s)
  case Nil
  show ?case by simp
next
  case (Cons p P)
  have "\<And>other. hits (fst (check_one s p)) other = hits (fst s) other"
    by (rule hits_same_shape) (rule check_one_shape)
  then have "hits (fst (check_one s p)) = hits (fst s)" by blast
  with Cons.IH [of "check_one s p"] show ?case
    by (simp add: check_one_events)
qed

lemma foldl_check_data:
  assumes "P \<noteq> []"
  shows "collisionData (fst (foldl check_one s P)) = Some (collision_result (fst s) (last P))"
proof -
  from assms obtain Q p where P: "P = Q @ [p]"
    by (cases P rule: rev_cases) auto
  have "collision_result (fst (foldl check_one s Q)) p = collision_result (fst s) p"
    by (rule collision_result_same_shape) (rule foldl_check_shape)
  with P show ?thesis by (simp add: check_one_data)
qed

lemma foldl_check_movement:
  "movement (fst (foldl check_one s P)) =
    (if filter (hits (fst s)) P = [] then movement (fst s)
     else movement_of (touch_this (collision_result (fst s) (last (filter (hits (fst s)) P)))))"
proof (induction P rule: rev_induct)
  case Nil
  show ?case by simp
next
  case (snoc p P)
  have r: "collision_result (fst (foldl check_one s P)) p = collision_result (fst s) p"
    by (rule collision_result_same_shape) (rule foldl_check_shape)
  have h: "hits (fst (foldl check_one s P)) p = hits (fst s) p"
    by (rule hits_same_shape) (rule foldl_check_shape)
  from snoc r h show ?case by (simp add: check_one_movement)
qed

lemma foldl_record_id_prefix: "\<exists>new. foldl record_id ev ids = ev @ new"
proof (induction ids arbitrary: ev)
  case Nil
  show ?case by simp
next
  case (Cons i ids)
  from Cons [of "record_id ev i"] show ?case
    by (auto simp: record_id_def split: if_splits)
qed

lemma set_foldl_record_id: "set (foldl record_id ev ids) = set ev \<union> set ids"
  by (induction ids arbitrary: ev) (auto simp: record_id_def)

lemma distinct_foldl_record_id: "distinct ev \<Longrightarrow> distinct (foldl record_id ev ids)"
  by (induction ids arbitrary: ev) (auto simp: record_id_def)

lemma collisionChecks_fold:
  "collisionChecks w r this =
    (let s = foldl check_one (this, False) (partners w r)
     in if \<not> snd s then (fst s)\<lparr>collisionEvents := []\<rparr> else fst s)"
  by (simp add: collisionChecks_def partners_def foldl_step_partners)

subsection \<open>The sample scene\<close>

lemma partners_scene:
  "partners scene (Suc 0) =
    [sample_npc ''Tux'' \<lparr>vx = 470, vy = 300\<rparr>, sample_npc ''Octocat'' \<lparr>vx = 390, vy = 340\<rparr>,
     sample_npc ''Robot'' \<lparr>vx = 750, vy = 600\<rparr>]"
  by (simp add: partners_def scene_def)

lemma rect_sample_player:
  "canvas_rect (canvas sample_player) =
     \<lparr>rect_left = 400, rect_top = 300, rect_width = 160, rect_height = 160\<rparr>"
  "hitbox sample_player = \<lparr>widthPercentage = Some 0.45, heightPercentage = Some 0.2\<rparr>"
  by (simp_all add: sample_player_def draw_style_def resize_def Character_fields_def
      sprite_data_player_def world0_def num_or_def Let_def)

lemma rect_sample_npc:
  "canvas_rect (canvas (sample_npc name \<lparr>vx = x, vy = y\<rparr>)) =
     \<lparr>rect_left = x, rect_top = y, rect_width = 100, rect_height = 100\<rparr>"
  "hitbox (sample_npc name p) = \<lparr>widthPercentage = Some 0.1, heightPercentage = Some 0.2\<rparr>"
  "name \<noteq> [] \<Longrightarrow> canvas_id (canvas (sample_npc name p)) = name"
  by (simp_all add: sample_npc_def draw_style_def resize_def Character_fields_def Npc_fields_def
      new_canvas_def str_or_def sprite_data_npc_def world0_def num_or_def Let_def)

lemma inset_sample_player:
  "canvas t = canvas sample_player \<Longrightarrow> hitbox t = hitbox sample_player \<Longrightarrow>
   inset_of t = \<lparr>box_left = 472, box_top = 332, box_right = 488, box_bottom = 460\<rparr>"
  by (simp add: inset_of_def inset_box_def rect_sample_player getBoundingClientRect_def
      num_or_def rect_right_def rect_bottom_def)

lemma inset_sample_npc:
  "inset_of (sample_npc name \<lparr>vx = x, vy = y\<rparr>) =
     \<lparr>box_left = x + 10, box_top = y + 20, box_right = x + 90, box_bottom = y + 100\<rparr>"
  by (simp add: inset_of_def inset_box_def rect_sample_npc getBoundingClientRect_def
      num_or_def rect_right_def rect_bottom_def)

lemma hits_scene:
  assumes "canvas t = canvas sample_player" "hitbox t = hitbox sample_player"
  shows "filter (hits t) (partners scene (Suc 0)) =
    [sample_npc ''Tux'' \<lparr>vx = 470, vy = 300\<rparr>, sample_npc ''Octocat'' \<lparr>vx = 390, vy = 340\<rparr>]"
  by (simp add: partners_scene hits_def inset_sample_player [OF assms] inset_sample_npc
      boxes_overlap_def)

lemma touch_this_sample:
  "touch_this (collision_result sample_player (sample_npc name \<lparr>vx = x, vy = y\<rparr>)) =
    \<lparr>touch_id = canvas_id (canvas sample_player), greet = greeting (spriteData sample_player),
     touch_top = (460 > y + 20 \<and> 332 < y + 20),
     touch_bottom = (332 < y + 100 \<and> 460 > y + 100),
     touch_left = (488 > x + 10 \<and> 472 < x + 10),
     touch_right = (472 < x + 90 \<and> 488 > x + 90)\<rparr>"
  by (simp add: collision_result_def rect_sample_player rect_sample_npc getBoundingClientRect_def
      num_or_def rect_right_def rect_bottom_def)

subsection \<open>What a pass of collisionChecks leaves behind\<close>

text \<open>
  C10. A pass of \<open>collisionChecks\<close> leaves \<open>collisionEvents\<close> empty exactly when no
  partner registers a hit. When some partner does, the ids recorded before the pass are
  all kept, in their order, whether or not their objects still touch; the ids of the
  partners that hit are added; and a list without repetition stays without repetition.
\<close>

theorem collisionChecks_collisionEvents:
  "((collisionEvents (collisionChecks w r this) = []) =
      (\<forall>other \<in> set (partners w r). \<not> hits this other))
   \<and> ((\<exists>other \<in> set (partners w r). hits this other) \<longrightarrow>
        (\<exists>new. collisionEvents (collisionChecks w r this) = collisionEvents this @ new)
      \<and> set (collisionEvents (collisionChecks w r this)) =
          set (collisionEvents this) \<union>
          {canvas_id (canvas other) | other. other \<in> set (partners w r) \<and> hits this other}
      \<and> (distinct (collisionEvents this) \<longrightarrow>
          distinct (collisionEvents (collisionChecks w r this))))"
proof (cases "\<exists>other \<in> set (partners w r). hits this other")
  case False
  then show ?thesis
    by (simp add: collisionChecks_fold Let_def foldl_check_detected)
next
  case True
  let ?ids = "map (\<lambda>other. canvas_id (canvas other)) (filter (hits this) (partners w r))"
  have ev: "collisionEvents (collisionChecks w r this) = foldl record_id (collisionEvents this) ?ids"
    using True by (simp add: collisionChecks_fold Let_def foldl_check_detected foldl_check_events)
  from True have "set ?ids \<noteq> {}" by auto
  then have ne: "foldl record_id (collisionEvents this) ?ids \<noteq> []"
    using set_foldl_record_id [of "collisionEvents this" ?ids] by auto
  have st: "set ?ids =
      {canvas_id (canvas other) | other. other \<in> set (partners w r) \<and> hits this other}"
    by auto
  from True ne show ?thesis
    unfolding ev
    using foldl_record_id_prefix [of "collisionEvents this" ?ids]
      distinct_foldl_record_id [of "collisionEvents this" ?ids]
    by (simp add: set_foldl_record_id st del: set_map set_filter)
qed

theorem collisionChecks_collisionEvents_witness:
  "(\<exists>other \<in> set (partners scene 1). hits (sample_player\<lparr>collisionEvents := [''Robot'']\<rparr>) other)
   \<and> distinct (collisionEvents (sample_player\<lparr>collisionEvents := [''Robot'']\<rparr>))
   \<and> \<not> hits (sample_player\<lparr>collisionEvents := [''Robot'']\<rparr>)
          (sample_npc ''Robot'' \<lparr>vx = 750, vy = 600\<rparr>)
   \<and> (\<exists>new. collisionEvents (collisionChecks scene 1 (sample_player\<lparr>collisionEvents := [''Robot'']\<rparr>))
          = [''Robot''] @ new)
   \<and> set (collisionEvents (collisionChecks scene 1 (sample_player\<lparr>collisionEvents := [''Robot'']\<rparr>)))
        = {''Robot'', ''Tux'', ''Octocat''}
   \<and> distinct (collisionEvents (collisionChecks scene 1 (sample_player\<lparr>collisionEvents := [''Robot'']\<rparr>)))"
proof -
  let ?t = "sample_player\<lparr>collisionEvents := [''Robot'']\<rparr>"
  have f: "filter (hits ?t) (partners scene 1) =
    [sample_npc ''Tux'' \<lparr>vx = 470, vy = 300\<rparr>, sample_npc ''Octocat'' \<lparr>vx = 390, vy = 340\<rparr>]"
    using hits_scene [of ?t] by simp
  have h: "\<exists>other \<in> set (partners scene 1). hits ?t other"
    using f by (metis filter_empty_conv list.distinct(1))
  have s: "{canvas_id (canvas other) | other. other \<in> set (partners scene 1) \<and> hits ?t other}
      = {''Tux'', ''Octocat''}"
  proof -
    have "{canvas_id (canvas other) | other. other \<in> set (partners scene 1) \<and> hits ?t other}
      = (\<lambda>other. canvas_id (canvas other)) ` set (filter (hits ?t) (partners scene 1))"
      by auto
    then show ?thesis unfolding f by (simp add: rect_sample_npc)
  qed
  have n: "\<not> hits ?t (sample_npc ''Robot'' \<lparr>vx = 750, vy = 600\<rparr>)"
    by (simp add: hits_def inset_sample_player inset_sample_npc boxes_overlap_def)
  from collisionChecks_collisionEvents [of scene 1 ?t] h s n show ?thesis
    by auto
qed

text \<open>
  C4. After a pass of \<open>collisionChecks\<close>, \<open>collisionData\<close> is the result for the
  partner that was checked last, and the movement flags are those that the touch points
  of the last partner that hit leave behind: reset, then written from that partner alone.
  Nothing of an earlier partner's flags is merged in.
\<close>

theorem collisionChecks_last_partner_wins:
  "collisionData (collisionChecks w r this) =
     (if partners w r = [] then collisionData this
      else Some (collision_result this (last (partners w r))))
   \<and> movement (collisionChecks w r this) =
     (if filter (hits this) (partners w r) = [] then movement this
      else movement_of (touch_this
             (collision_result this (last (filter (hits this) (partners w r))))))"
proof -
  have d: "partners w r \<noteq> [] \<Longrightarrow> collisionData (collisionChecks w r this) =
        Some (collision_result this (last (partners w r)))"
    using foldl_check_data [of "partners w r" "(this, False)"]
    by (simp add: collisionChecks_fold Let_def)
  have e: "partners w r = [] \<Longrightarrow> collisionData (collisionChecks w r this) = collisionData this"
    by (simp add: collisionChecks_fold Let_def)
  have m: "movement (collisionChecks w r this) =
    (if filter (hits this) (partners w r) = [] then movement this
     else movement_of (touch_this
            (collision_result this (last (filter (hits this) (partners w r))))))"
    using foldl_check_movement [of "(this, False)" "partners w r"]
    by (simp add: collisionChecks_fold Let_def)
  from d e m show ?thesis by simp
qed

theorem collisionChecks_last_partner_wins_witness:
  "movement (collisionChecks scene 1 sample_player) =
     \<lparr>move_up = False, move_down = False, move_left = False, move_right = True\<rparr>
   \<and> movement_of (touch_this (collision_result sample_player
        (sample_npc ''Tux'' \<lparr>vx = 470, vy = 300\<rparr>))) =
     \<lparr>move_up = False, move_down = True, move_left = True, move_right = False\<rparr>
   \<and> hits sample_player (sample_npc ''Tux'' \<lparr>vx = 470, vy = 300\<rparr>)
   \<and> collisionData (collisionChecks scene 1 sample_player) =
     Some (collision_result sample_player (sample_npc ''Robot'' \<lparr>vx = 750, vy = 600\<rparr>))"
proof -
  have f: "filter (hits sample_player) (partners scene 1) =
    [sample_npc ''Tux'' \<lparr>vx = 470, vy = 300\<rparr>, sample_npc ''Octocat'' \<lparr>vx = 390, vy = 340\<rparr>]"
    using hits_scene [of sample_player] by simp
  have p: "partners scene 1 =
    [sample_npc ''Tux'' \<lparr>vx = 470, vy = 300\<rparr>, sample_npc ''Octocat'' \<lparr>vx = 390, vy = 340\<rparr>,
     sample_npc ''Robot'' \<lparr>vx = 750, vy = 600\<rparr>]"
    using partners_scene by simp
  have h: "hits sample_player (sample_npc ''Tux'' \<lparr>vx = 470, vy = 300\<rparr>)"
    by (simp add: hits_def inset_sample_player inset_sample_npc boxes_overlap_def)
  note t = collisionChecks_last_partner_wins [of scene 1 sample_player, unfolded f, unfolded p]
  from t h show ?thesis
    by (simp add: touch_this_sample movement_of_def)
qed

subsection \<open>Character.resize\<close>

lemma Character_fields_factors:
  "scaleFactor (Character_fields k d cv w) \<noteq> 0"
  "stepFactor (Character_fields k d cv w) \<noteq> 0"
  by (simp_all add: Character_fields_def num_or_def SCALE_FACTOR_default_def
      STEP_FACTOR_default_def split: option.splits)

lemma resize_fields:
  "char_size (resize w this) = innerHeight w / scaleFactor this"
  "char_width (resize w this) = innerHeight w / scaleFactor this"
  "char_height (resize w this) = innerHeight w / scaleFactor this"
  "xVelocity (resize w this) = innerWidth w / stepFactor this"
  "yVelocity (resize w this) = innerHeight w / stepFactor this"
  "position (resize w this) =
     \<lparr>vx = vx (position this) / scale_width this * innerWidth w,
      vy = vy (position this) / scale_height this * innerHeight w\<rparr>"
  "scale_width (resize w this) = innerWidth w"
  "scale_height (resize w this) = innerHeight w"
  "scaleFactor (resize w this) = scaleFactor this"
  "stepFactor (resize w this) = stepFactor this"
  by (simp_all add: resize_def Let_def)

text \<open>
  C5. After \<open>resize\<close> with the new game area \<open>innerWidth w\<close> by \<open>innerHeight w\<close> and the
  previous scale \<open>scale_width this\<close> by \<open>scale_height this\<close>: size, width and height
  are the new height divided by the scale factor, the position is scaled by new over old
  on each axis, and the step velocities are the new width and height divided by the step
  factor. For a height of 800, a scale factor of 5 gives size 160 and a step factor of
  1000 gives a step of 0.8 on the y axis. The divisors are taken to be non-zero, as the
  constructor leaves the two factors.
\<close>

theorem resize_size_position_velocity:
  assumes "scale_width this \<noteq> 0" and "scale_height this \<noteq> 0"
    and "scaleFactor this \<noteq> 0" and "stepFactor this \<noteq> 0"
  shows "char_size (resize w this) = innerHeight w / scaleFactor this
    \<and> char_width (resize w this) = char_size (resize w this)
    \<and> char_height (resize w this) = char_size (resize w this)
    \<and> vx (position (resize w this)) = vx (position this) * (innerWidth w / scale_width this)
    \<and> vy (position (resize w this)) = vy (position this) * (innerHeight w / scale_height this)
    \<and> xVelocity (resize w this) = innerWidth w / stepFactor this
    \<and> yVelocity (resize w this) = innerHeight w / stepFactor this
    \<and> (innerHeight w = 800 \<and> scaleFactor this = 5 \<longrightarrow> char_size (resize w this) = 160)
    \<and> (innerHeight w = 800 \<and> stepFactor this = 1000 \<longrightarrow> yVelocity (resize w this) = 0.8)"
  by (simp add: resize_fields)

theorem resize_size_position_velocity_witness:
  "scale_width sample_player \<noteq> 0 \<and> scale_height sample_player \<noteq> 0
   \<and> scaleFactor sample_player = 5 \<and> stepFactor sample_player = 1000
   \<and> innerWidth world0 = 1000 \<and> innerHeight world0 = 800
   \<and> char_size (resize world0 sample_player) = 160
   \<and> char_width (resize world0 sample_player) = 160
   \<and> char_height (resize world0 sample_player) = 160
   \<and> yVelocity (resize world0 sample_player) = 0.8
   \<and> xVelocity (resize world0 sample_player) = 1
   \<and> position (resize (world0\<lparr>innerWidth := 500, innerHeight := 400\<rparr>) sample_player)
       = \<lparr>vx = 200, vy = 150\<rparr>"
proof -
  have s: "scale_width sample_player = 1000" "scale_height sample_player = 800"
    "scaleFactor sample_player = 5" "stepFactor sample_player = 1000"
    "position sample_player = \<lparr>vx = 400, vy = 300\<rparr>"
    by (simp_all add: sample_player_def draw_style_def resize_fields Character_fields_def
        sprite_data_player_def world0_def num_or_def)
  have w: "innerWidth world0 = 1000" "innerHeight world0 = 800"
    by (simp_all add: world0_def)
  have e: "resize (world0\<lparr>innerWidth := 500, innerHeight := 400\<rparr>) sample_player = r
    \<Longrightarrow> position r = \<lparr>vx = vx (position r), vy = vy (position r)\<rparr>" for r
    by simp
  from resize_size_position_velocity [of sample_player world0]
    resize_size_position_velocity [of sample_player "world0\<lparr>innerWidth := 500, innerHeight := 400\<rparr>"]
    e [OF refl]
  show ?thesis by (simp add: s w)
qed

subsection \<open>What update leaves untouched\<close>

lemma on_touch_body:
  "position (on_touch_top t) = position t" "char_width (on_touch_top t) = char_width t"
  "char_height (on_touch_top t) = char_height t"
  "position (on_touch_bottom t) = position t" "char_width (on_touch_bottom t) = char_width t"
  "char_height (on_touch_bottom t) = char_height t"
  "position (on_touch_left t) = position t" "char_width (on_touch_left t) = char_width t"
  "char_height (on_touch_left t) = char_height t"
  "position (on_touch_right t) = position t" "char_width (on_touch_right t) = char_width t"
  "char_height (on_touch_right t) = char_height t"
  by (simp_all add: on_touch_top_def on_touch_bottom_def on_touch_left_def on_touch_right_def
      Let_def)

lemma handleCollisionState_body:
  "position (handleCollisionState t) = position t"
  "char_width (handleCollisionState t) = char_width t"
  "char_height (handleCollisionState t) = char_height t"
  by (simp_all add: handleCollisionState_def Let_def on_touch_body split: option.splits)

lemma handleCollisionEvent_body:
  "position (handleCollisionEvent t) = position t"
  "char_width (handleCollisionEvent t) = char_width t"
  "char_height (handleCollisionEvent t) = char_height t"
  by (simp_all add: handleCollisionEvent_def handleCollisionReaction_def
      handleCollisionState_body Let_def split: option.splits)

lemma check_one_body:
  "position (fst (check_one s other)) = position (fst s)"
  "char_width (fst (check_one s other)) = char_width (fst s)"
  "char_height (fst (check_one s other)) = char_height (fst s)"
  by (simp_all add: check_one_def Let_def isCollision_def handleCollisionEvent_body)

lemma foldl_check_body:
  "position (fst (foldl check_one s P)) = position (fst s)
   \<and> char_width (fst (foldl check_one s P)) = char_width (fst s)
   \<and> char_height (fst (foldl check_one s P)) = char_height (fst s)"
  by (induction P arbitrary: s) (simp_all add: check_one_body)

lemma collisionChecks_body:
  "position (collisionChecks w r this) = position this"
  "char_width (collisionChecks w r this) = char_width this"
  "char_height (collisionChecks w r this) = char_height this"
  using foldl_check_body [of "(this, False)" "partners w r"]
  by (simp_all add: collisionChecks_fold Let_def)

lemma collisionChecks_data:
  "collisionData (collisionChecks w r this) =
     (if partners w r = [] then collisionData this
      else Some (collision_result this (last (partners w r))))"
  using foldl_check_data [of "partners w r" "(this, False)"]
  by (simp add: collisionChecks_fold Let_def)

lemma collisionChecks_events:
  "collisionEvents (collisionChecks w r this) =
     (if \<exists>other \<in> set (partners w r). hits this other
      then foldl record_id (collisionEvents this)
             (map (\<lambda>other. canvas_id (canvas other)) (filter (hits this) (partners w r)))
      else [])"
  by (simp add: collisionChecks_fold Let_def foldl_check_detected foldl_check_events)

lemma draw_style_frame:
  "position (draw_style w t) = position t" "char_width (draw_style w t) = char_width t"
  "char_height (draw_style w t) = char_height t" "velocity (draw_style w t) = velocity t"
  "collisionData (draw_style w t) = collisionData t"
  "collisionEvents (draw_style w t) = collisionEvents t"
  "movement (draw_style w t) = movement t" "cls (draw_style w t) = cls t"
  "spriteData (draw_style w t) = spriteData t" "direction (draw_style w t) = direction t"
  by (simp_all add: draw_style_def)

lemma draw_eq: "draw w t = (if drawable t then Inr (draw_style w t) else Inl TypeError)"
  by (simp add: draw_def drawable_def)

lemma integrate_frame:
  "char_width (integrate t) = char_width t" "char_height (integrate t) = char_height t"
  "collisionData (integrate t) = collisionData t"
  "collisionEvents (integrate t) = collisionEvents t"
  by (simp_all add: integrate_def)

lemma keep_frame:
  "collisionData (keep_above_bottom w t) = collisionData t"
  "collisionEvents (keep_above_bottom w t) = collisionEvents t"
  "collisionData (keep_below_top t) = collisionData t"
  "collisionEvents (keep_below_top t) = collisionEvents t"
  "collisionData (keep_left_of_right w t) = collisionData t"
  "collisionEvents (keep_left_of_right w t) = collisionEvents t"
  "collisionData (keep_right_of_left t) = collisionData t"
  "collisionEvents (keep_right_of_left t) = collisionEvents t"
  by (simp_all add: keep_above_bottom_def keep_below_top_def keep_left_of_right_def
      keep_right_of_left_def)

lemma keep_vertical:
  assumes "char_height t \<le> innerHeight w"
  shows "0 \<le> vy (position (keep_below_top (keep_above_bottom w t)))"
    and "vy (position (keep_below_top (keep_above_bottom w t))) \<le> innerHeight w - char_height t"
    and "vx (position (keep_below_top (keep_above_bottom w t))) = vx (position t)"
    and "char_width (keep_below_top (keep_above_bottom w t)) = char_width t"
    and "char_height (keep_below_top (keep_above_bottom w t)) = char_height t"
  using assms by (simp_all add: keep_above_bottom_def keep_below_top_def)

lemma keep_horizontal:
  assumes "char_width t \<le> innerWidth w"
  shows "0 \<le> vx (position (keep_right_of_left (keep_left_of_right w t)))"
    and "vx (position (keep_right_of_left (keep_left_of_right w t))) \<le> innerWidth w - char_width t"
    and "vy (position (keep_right_of_left (keep_left_of_right w t))) = vy (position t)"
    and "char_width (keep_right_of_left (keep_left_of_right w t)) = char_width t"
    and "char_height (keep_right_of_left (keep_left_of_right w t)) = char_height t"
  using assms by (simp_all add: keep_left_of_right_def keep_right_of_left_def)

lemma keep_right_of_left_nonneg: "0 \<le> vx (position (keep_right_of_left t))"
  by (simp add: keep_right_of_left_def)

lemma keep_size:
  "char_width (keep_right_of_left t) = char_width t"
  "char_width (keep_left_of_right w t) = char_width t"
  "char_width (keep_below_top t) = char_width t"
  "char_width (keep_above_bottom w t) = char_width t"
  by (simp_all add: keep_above_bottom_def keep_below_top_def keep_left_of_right_def
      keep_right_of_left_def)

text \<open>The object that \<open>Character.update\<close> leaves when \<open>draw\<close> has returned \<open>t\<close>.\<close>

lemma Character_update_eq:
  "Character_update w r this =
    (if drawable this then
       Inr (keep_right_of_left (keep_left_of_right w (keep_below_top (keep_above_bottom w
              (integrate (collisionChecks w r (draw_style w this)))))))
     else Inl TypeError)"
  by (simp add: Character_update_def draw_eq)

lemma moved_within:
  assumes "char_width t \<le> innerWidth w" and "char_height t \<le> innerHeight w"
  shows "within_viewport w
    (keep_right_of_left (keep_left_of_right w (keep_below_top (keep_above_bottom w
       (integrate (collisionChecks w r t))))))"
proof -
  let ?t = "integrate (collisionChecks w r t)"
  let ?v = "keep_below_top (keep_above_bottom w ?t)"
  have sz: "char_width ?t = char_width t" "char_height ?t = char_height t"
    by (simp_all add: integrate_frame collisionChecks_body)
  from assms sz have h: "char_height ?t \<le> innerHeight w" and wd: "char_width ?t \<le> innerWidth w"
    by simp_all
  note v = keep_vertical [OF h]
  from wd v(4) have wv: "char_width ?v \<le> innerWidth w" by simp
  note x = keep_horizontal [OF wv]
  from v x sz show ?thesis
    by (simp add: within_viewport_def)
qed

lemma update_not_drawable:
  "heap w r = Char this \<Longrightarrow> \<not> drawable this \<Longrightarrow> update r w = Inl (TypeError, w)"
  by (simp add: update_def Npc_update_def draw_eq Character_update_eq)

lemma update_drawable:
  "heap w r = Char this \<Longrightarrow> drawable this \<Longrightarrow>
   update r w = Inr (w\<lparr>heap := (heap w)(r := Char
     (if cls this = NpcClass then draw_style w this
      else keep_right_of_left (keep_left_of_right w (keep_below_top (keep_above_bottom w
             (integrate (collisionChecks w r (draw_style w this))))))))\<rparr>)"
  by (simp add: update_def Npc_update_def draw_eq Character_update_eq)

lemma character_after_update:
  "heap w r = Char this \<Longrightarrow>
   character_after_update w r =
     (if drawable this then
        Some (if cls this = NpcClass then draw_style w this
              else keep_right_of_left (keep_left_of_right w (keep_below_top
                     (keep_above_bottom w
                        (integrate (collisionChecks w r (draw_style w this)))))))
      else None)"
  by (simp add: character_after_update_def update_drawable update_not_drawable
      character_at_def)

lemma moved_collision:
  "collisionData (keep_right_of_left (keep_left_of_right w (keep_below_top
      (keep_above_bottom w (integrate t))))) = collisionData t"
  "collisionEvents (keep_right_of_left (keep_left_of_right w (keep_below_top
      (keep_above_bottom w (integrate t))))) = collisionEvents t"
  by (simp_all add: keep_frame integrate_frame)

lemma resize_frame:
  "cls (resize w t) = cls t" "canvas (resize w t) = canvas t" "hitbox (resize w t) = hitbox t"
  "spriteData (resize w t) = spriteData t" "velocity (resize w t) = velocity t"
  "collisionData (resize w t) = collisionData t"
  "collisionEvents (resize w t) = collisionEvents t"
  "movement (resize w t) = movement t" "direction (resize w t) = direction t"
  by (simp_all add: resize_def Let_def)

lemma narrow_facts:
  "heap narrow 0 = Char narrow_player" "heap narrow (Suc 0) = Char narrow_npc"
  "innerWidth narrow = 100" "innerHeight narrow = 1000"
  "cls narrow_player = PlayerClass" "cls narrow_npc = NpcClass"
  "char_width narrow_player = 200" "char_width narrow_npc = 125"
  "char_height narrow_npc = 125"
  "position narrow_npc = \<lparr>vx = 75, vy = 750\<rparr>"
  "drawable narrow_player" "drawable narrow_npc"
  by (simp_all add: narrow_def narrow_world_def narrow_player_def narrow_npc_def world0_def
      drawable_def Npc_fields_def resize_fields resize_frame Character_fields_def sprite_data_player_def
      sprite_data_npc_def num_or_def Let_def)

lemma scene_facts:
  "heap scene (Suc 0) = Char sample_player"
  "heap scene 2 = Char (sample_npc ''Tux'' \<lparr>vx = 470, vy = 300\<rparr>)"
  "innerWidth scene = 1000" "innerHeight scene = 800" "env_top scene = 0"
  "cls sample_player = PlayerClass" "cls (sample_npc name p) = NpcClass"
  "char_width sample_player = 160" "char_height sample_player = 160"
  "char_width (sample_npc name p) = 100" "char_height (sample_npc name p) = 100"
  "position (sample_npc name p) = p"
  "collisionData (sample_npc name p) = None" "collisionEvents (sample_npc name p) = []"
  "drawable sample_player" "drawable (sample_npc name p)"
  "position sample_player = \<lparr>vx = 400, vy = 300\<rparr>"
  "collisionData sample_player = None" "collisionEvents sample_player = []"
  by (simp_all add: scene_def sample_player_def sample_npc_def world0_def draw_style_frame
      drawable_def
      Npc_fields_def resize_fields resize_frame Character_fields_def sprite_data_player_def
      sprite_data_npc_def num_or_def Let_def)

subsection \<open>The position after update\<close>

text \<open>
  C1, as the code has it. \<open>Character.update\<close>, which \<open>Player\<close> inherits, leaves the
  rectangle of the object within the game area whenever the object is no wider and no
  higher than the game area. \<open>Npc.update\<close> only draws: the position stays what it was.
  The update returns when \<open>draw\<close> finds what it reads in the descriptor, and raises a
  \<open>TypeError\<close> that leaves the world as it was when it does not.
\<close>

theorem update_position_bounds:
  assumes "heap w r = Char this"
  shows "(cls this \<noteq> NpcClass \<and> char_width this \<le> innerWidth w
            \<and> char_height this \<le> innerHeight w \<longrightarrow> stays_inside w r)
    \<and> (cls this = NpcClass \<and> drawable this \<longrightarrow>
          map_option position (character_after_update w r) = Some (position this))
    \<and> (drawable this \<longrightarrow> character_after_update w r \<noteq> None)
    \<and> (\<not> drawable this \<longrightarrow> update r w = Inl (TypeError, w))"
  using assms moved_within [of "draw_style w this" w r]
  by (simp add: stays_inside_def character_after_update update_not_drawable draw_style_frame)

theorem update_position_bounds_witness:
  "heap scene 1 = Char sample_player \<and> cls sample_player \<noteq> NpcClass
   \<and> char_width sample_player \<le> innerWidth scene
   \<and> char_height sample_player \<le> innerHeight scene
   \<and> drawable sample_player
   \<and> character_after_update scene 1 \<noteq> None
   \<and> stays_inside scene 1
   \<and> heap scene 2 = Char (sample_npc ''Tux'' \<lparr>vx = 470, vy = 300\<rparr>)
   \<and> cls (sample_npc ''Tux'' \<lparr>vx = 470, vy = 300\<rparr>) = NpcClass
   \<and> drawable (sample_npc ''Tux'' \<lparr>vx = 470, vy = 300\<rparr>)
   \<and> map_option position (character_after_update scene 2) = Some \<lparr>vx = 470, vy = 300\<rparr>
   \<and> heap bare_scene 2 = Char bare_npc \<and> \<not> drawable bare_npc
   \<and> update 2 bare_scene = Inl (TypeError, bare_scene)"
proof -
  have b: "heap bare_scene 2 = Char bare_npc" "\<not> drawable bare_npc"
    by (simp_all add: bare_scene_def bare_npc_def drawable_def)
  from update_position_bounds [of scene 1 sample_player]
    update_position_bounds [of scene 2 "sample_npc ''Tux'' \<lparr>vx = 470, vy = 300\<rparr>"]
    update_position_bounds [of bare_scene 2 bare_npc] b
  show ?thesis
    by (simp add: scene_facts)
qed

text \<open>
  The claim as the specification states it fails twice in a game area of 100 by 1000.
  Both updates return. The player, 200 wide, ends at \<open>x = 0\<close>, right of \<open>100 - 200\<close>;
  and the stationary character, which is never moved, stays at \<open>x = 75\<close>, right of
  \<open>100 - 125\<close>.
\<close>

theorem update_position_bounds_counterexample:
  "character_after_update narrow 0 \<noteq> None \<and> \<not> stays_inside narrow 0
   \<and> character_after_update narrow 1 \<noteq> None \<and> \<not> stays_inside narrow 1"
proof -
  let ?p = "keep_right_of_left (keep_left_of_right narrow (keep_below_top
     (keep_above_bottom narrow
        (integrate (collisionChecks narrow 0 (draw_style narrow narrow_player))))))"
  have "0 \<le> vx (position ?p)"
    by (simp add: keep_right_of_left_nonneg)
  moreover have "char_width ?p = 200"
    by (simp add: keep_size integrate_frame collisionChecks_body draw_style_frame narrow_facts)
  ultimately have "\<not> within_viewport narrow ?p"
    by (simp add: within_viewport_def narrow_facts)
  moreover have "\<not> within_viewport narrow (draw_style narrow narrow_npc)"
    by (simp add: within_viewport_def draw_style_frame narrow_facts)
  ultimately show ?thesis
    by (simp add: stays_inside_def character_after_update narrow_facts)
qed

subsection \<open>The collision checks of update\<close>

lemma on_touch_velocity:
  "velocity (on_touch_top t) =
     (if vy (velocity t) > 0 then (velocity t)\<lparr>vy := 0\<rparr> else velocity t)"
  "velocity (on_touch_bottom t) =
     (if vy (velocity t) < 0 then (velocity t)\<lparr>vy := 0\<rparr> else velocity t)"
  "velocity (on_touch_right t) =
     (if vx (velocity t) < 0 then (velocity t)\<lparr>vx := 0\<rparr> else velocity t)"
  "velocity (on_touch_left t) =
     (if vx (velocity t) > 0 then (velocity t)\<lparr>vx := 0\<rparr> else velocity t)"
  by (simp_all add: on_touch_top_def on_touch_bottom_def on_touch_left_def on_touch_right_def
      Let_def)

lemma handleCollisionState_velocity:
  "collisionData t = Some d \<Longrightarrow> collisionEvents t \<noteq> [] \<Longrightarrow>
   velocity (handleCollisionState t) = stop_at (touch_this d) (velocity t)"
  by (cases "velocity t")
     (simp add: handleCollisionState_def Let_def on_touch_velocity stop_at_def)

lemma handleCollisionEvent_velocity:
  assumes d: "collisionData t = Some d"
  shows "velocity (handleCollisionEvent t) = stop_at (touch_this d) (velocity t)"
proof (cases "touch_id (touch_other d) \<in> set (collisionEvents t)")
  case True
  then have "collisionEvents t \<noteq> []" by auto
  with d True show ?thesis
    by (simp add: handleCollisionEvent_def handleCollisionState_velocity Let_def)
next
  case False
  let ?t = "t\<lparr>collisionEvents := collisionEvents t @ [touch_id (touch_other d)]\<rparr>"
  have "velocity (handleCollisionState ?t) = stop_at (touch_this d) (velocity ?t)"
    by (rule handleCollisionState_velocity) (simp_all add: d)
  with d False show ?thesis
    by (simp add: handleCollisionEvent_def handleCollisionReaction_def Let_def)
qed

lemma check_one_velocity:
  "velocity (fst (check_one s other)) =
    (if hits (fst s) other
     then stop_at (touch_this (collision_result (fst s) other)) (velocity (fst s))
     else velocity (fst s))"
  by (simp add: check_one_def Let_def collision_hit_isCollision hits_def isCollision_frame
      handleCollisionEvent_velocity)

lemma foldl_check_velocity:
  "velocity (fst (foldl check_one s P)) =
    foldl (\<lambda>v other. stop_at (touch_this (collision_result (fst s) other)) v)
      (velocity (fst s)) (filter (hits (fst s)) P)"
proof (induction P rule: rev_induct)
  case Nil
  show ?case by simp
next
  case (snoc p P)
  have r: "collision_result (fst (foldl check_one s P)) p = collision_result (fst s) p"
    by (rule collision_result_same_shape) (rule foldl_check_shape)
  have h: "hits (fst (foldl check_one s P)) p = hits (fst s) p"
    by (rule hits_same_shape) (rule foldl_check_shape)
  from snoc r h show ?case by (simp add: check_one_velocity)
qed

lemma collisionChecks_velocity:
  "velocity (collisionChecks w r this) = checked_velocity w r this"
  using foldl_check_velocity [of "(this, False)" "partners w r"]
  by (simp add: collisionChecks_fold Let_def checked_velocity_def)

text \<open>The four tests on the boundaries, axis by axis.\<close>

lemma keep_position:
  "position (keep_right_of_left (keep_left_of_right w (keep_below_top
      (keep_above_bottom w t)))) =
    \<lparr>vx = clamp_axis (innerWidth w) (char_width t) (vx (position t)),
     vy = clamp_axis (innerHeight w) (char_height t) (vy (position t))\<rparr>"
  by (cases "position t")
     (simp add: keep_above_bottom_def keep_below_top_def keep_left_of_right_def
        keep_right_of_left_def clamp_axis_def Let_def)

lemma moved_position:
  "position (keep_right_of_left (keep_left_of_right w (keep_below_top
      (keep_above_bottom w (integrate (collisionChecks w r t)))))) =
    \<lparr>vx = clamp_axis (innerWidth w) (char_width t)
            (vx (position t) + vx (checked_velocity w r t)),
     vy = clamp_axis (innerHeight w) (char_height t)
            (vy (position t) + vy (checked_velocity w r t))\<rparr>"
  by (simp add: keep_position integrate_frame integrate_def collisionChecks_body
      collisionChecks_velocity)

lemma draw_style_scene_again:
  "draw_style scene sample_player = sample_player"
  "draw_style scene (sample_npc name p) = sample_npc name p"
  "draw_style moving_scene moving_player = moving_player"
  by (simp_all add: draw_style_def sample_player_def sample_npc_def scene_def world0_def
      moving_scene_def moving_player_def)

lemma spriteData_sample_player:
  "spriteData sample_player = sprite_data_player ''Chill Guy'' \<lparr>vx = 400, vy = 300\<rparr>"
  by (simp add: sample_player_def draw_style_frame resize_frame Character_fields_def)

lemma moving_player_facts:
  "cls moving_player = PlayerClass" "drawable moving_player"
  "canvas moving_player = canvas sample_player" "hitbox moving_player = hitbox sample_player"
  "spriteData moving_player = spriteData sample_player"
  "position moving_player = \<lparr>vx = 400, vy = 300\<rparr>"
  "velocity moving_player = \<lparr>vx = 1, vy = - (4 / 5)\<rparr>"
  "char_width moving_player = 160" "char_height moving_player = 160"
  "collisionData moving_player = None" "collisionEvents moving_player = []"
  by (simp_all add: moving_player_def drawable_def spriteData_sample_player
      sprite_data_player_def scene_facts)

lemma moving_scene_facts:
  "heap moving_scene (Suc 0) = Char moving_player"
  "partners moving_scene (Suc 0) = partners scene (Suc 0)"
  "innerWidth moving_scene = 1000" "innerHeight moving_scene = 800"
  by (simp_all add: moving_scene_def partners_def scene_def world0_def)

lemma same_shape_moving: "same_shape moving_player sample_player"
  by (simp add: same_shape_def moving_player_facts)

lemma checked_velocity_moving:
  "checked_velocity moving_scene (Suc 0) moving_player = \<lparr>vx = 0, vy = 0\<rparr>"
  by (simp add: checked_velocity_def moving_scene_facts moving_player_facts hits_scene
      collision_result_same_shape [OF same_shape_moving] touch_this_sample stop_at_def)

lemma hits_moving_Tux: "hits moving_player (sample_npc ''Tux'' \<lparr>vx = 470, vy = 300\<rparr>)"
  by (simp add: hits_def inset_sample_player moving_player_facts inset_sample_npc
      boxes_overlap_def)

text \<open>
  C3, as the code has it. \<open>Character.update\<close>, which \<open>Player\<close> inherits, draws, then
  checks the object as \<open>draw\<close> left it against every other object of the registry that
  has a canvas, and only then moves it: afterwards \<open>collisionData\<close> is the result for
  the last of them, every one of them that overlaps the object is recorded in
  \<open>collisionEvents\<close>, \<open>collisionEvents\<close> is empty when none overlaps, and the position
  is the old position advanced by the velocity that the checks have left, each axis then
  held within the game area. \<open>Npc.update\<close> only draws and leaves the collision state
  and the position of the object as they were. Where \<open>draw\<close> does not find what it reads
  in the descriptor, the update raises a \<open>TypeError\<close> and nothing is checked or moved.
\<close>

theorem update_runs_collisionChecks:
  assumes "heap w r = Char this"
  shows "(drawable this \<longrightarrow>
      (\<exists>t c. draw w this = Inr t \<and> update r w = Inr (w\<lparr>heap := (heap w)(r := Char c)\<rparr>)
        \<and> (cls this \<noteq> NpcClass \<longrightarrow>
             collisionData c =
               (if partners w r = [] then collisionData this
                else Some (collision_result t (last (partners w r))))
           \<and> (\<forall>other \<in> set (partners w r).
                 hits t other \<longrightarrow> canvas_id (canvas other) \<in> set (collisionEvents c))
           \<and> ((\<forall>other \<in> set (partners w r). \<not> hits t other) \<longrightarrow> collisionEvents c = [])
           \<and> position c =
               \<lparr>vx = clamp_axis (innerWidth w) (char_width this)
                       (vx (position this) + vx (checked_velocity w r t)),
                vy = clamp_axis (innerHeight w) (char_height this)
                       (vy (position this) + vy (checked_velocity w r t))\<rparr>)
        \<and> (cls this = NpcClass \<longrightarrow>
             collision_state c = collision_state this \<and> position c = position this)))
    \<and> (\<not> drawable this \<longrightarrow> update r w = Inl (TypeError, w))"
proof (intro conjI impI)
  assume n: "\<not> drawable this"
  with assms show "update r w = Inl (TypeError, w)"
    by (rule update_not_drawable)
next
  assume dr: "drawable this"
  let ?t = "draw_style w this"
  let ?m = "keep_right_of_left (keep_left_of_right w (keep_below_top (keep_above_bottom w
              (integrate (collisionChecks w r ?t)))))"
  let ?c = "if cls this = NpcClass then ?t else ?m"
  have t: "draw w this = Inr ?t"
    using dr by (simp add: draw_eq)
  have u: "update r w = Inr (w\<lparr>heap := (heap w)(r := Char ?c)\<rparr>)"
    using assms dr by (rule update_drawable)
  have d: "collisionData ?m =
      (if partners w r = [] then collisionData this
       else Some (collision_result ?t (last (partners w r))))"
    by (simp add: moved_collision collisionChecks_data draw_style_frame)
  have e: "canvas_id (canvas other) \<in> set (collisionEvents ?m)"
    if "other \<in> set (partners w r)" "hits ?t other" for other
  proof -
    from that have "\<exists>other \<in> set (partners w r). hits ?t other" by blast
    with that show ?thesis
      by (simp add: moved_collision collisionChecks_events set_foldl_record_id)
  qed
  have n: "collisionEvents ?m = []"
    if "\<forall>other \<in> set (partners w r). \<not> hits ?t other"
    using that by (simp add: moved_collision collisionChecks_events)
  have p: "position ?m =
      \<lparr>vx = clamp_axis (innerWidth w) (char_width this)
              (vx (position this) + vx (checked_velocity w r ?t)),
       vy = clamp_axis (innerHeight w) (char_height this)
              (vy (position this) + vy (checked_velocity w r ?t))\<rparr>"
    by (simp add: moved_position draw_style_frame)
  have s: "collision_state ?t = collision_state this \<and> position ?t = position this"
    by (simp add: collision_state_def draw_style_frame)
  show "\<exists>t c. draw w this = Inr t \<and> update r w = Inr (w\<lparr>heap := (heap w)(r := Char c)\<rparr>)
        \<and> (cls this \<noteq> NpcClass \<longrightarrow>
             collisionData c =
               (if partners w r = [] then collisionData this
                else Some (collision_result t (last (partners w r))))
           \<and> (\<forall>other \<in> set (partners w r).
                 hits t other \<longrightarrow> canvas_id (canvas other) \<in> set (collisionEvents c))
           \<and> ((\<forall>other \<in> set (partners w r). \<not> hits t other) \<longrightarrow> collisionEvents c = [])
           \<and> position c =
               \<lparr>vx = clamp_axis (innerWidth w) (char_width this)
                       (vx (position this) + vx (checked_velocity w r t)),
                vy = clamp_axis (innerHeight w) (char_height this)
                       (vy (position this) + vy (checked_velocity w r t))\<rparr>)
        \<and> (cls this = NpcClass \<longrightarrow>
             collision_state c = collision_state this \<and> position c = position this)"
  proof (intro exI conjI impI ballI)
    show "draw w this = Inr ?t" by (rule t)
    show "update r w = Inr (w\<lparr>heap := (heap w)(r := Char ?c)\<rparr>)" by (rule u)
  next
    assume "cls this \<noteq> NpcClass"
    then show "collisionData ?c =
      (if partners w r = [] then collisionData this
       else Some (collision_result ?t (last (partners w r))))"
      using d by simp
  next
    fix other
    assume "cls this \<noteq> NpcClass" "other \<in> set (partners w r)" "hits ?t other"
    then show "canvas_id (canvas other) \<in> set (collisionEvents ?c)"
      using e by simp
  next
    assume "cls this \<noteq> NpcClass" "\<forall>other \<in> set (partners w r). \<not> hits ?t other"
    then show "collisionEvents ?c = []"
      using n by simp
  next
    assume "cls this \<noteq> NpcClass"
    then show "position ?c =
      \<lparr>vx = clamp_axis (innerWidth w) (char_width this)
              (vx (position this) + vx (checked_velocity w r ?t)),
       vy = clamp_axis (innerHeight w) (char_height this)
              (vy (position this) + vy (checked_velocity w r ?t))\<rparr>"
      using p by simp
  next
    assume "cls this = NpcClass"
    then show "collision_state ?c = collision_state this" using s by simp
  next
    assume "cls this = NpcClass"
    then show "position ?c = position this" using s by simp
  qed
qed

theorem update_runs_collisionChecks_witness:
  "heap moving_scene 1 = Char moving_player \<and> cls moving_player \<noteq> NpcClass
   \<and> drawable moving_player
   \<and> position moving_player = \<lparr>vx = 400, vy = 300\<rparr>
   \<and> velocity moving_player = \<lparr>vx = 1, vy = - (4 / 5)\<rparr>
   \<and> sample_npc ''Tux'' \<lparr>vx = 470, vy = 300\<rparr> \<in> set (partners moving_scene 1)
   \<and> draw moving_scene moving_player = Inr moving_player
   \<and> hits moving_player (sample_npc ''Tux'' \<lparr>vx = 470, vy = 300\<rparr>)
   \<and> (\<exists>c. update 1 moving_scene = Inr (moving_scene\<lparr>heap := (heap moving_scene)(1 := Char c)\<rparr>)
        \<and> ''Tux'' \<in> set (collisionEvents c)
        \<and> collisionData c = Some (collision_result moving_player
             (sample_npc ''Robot'' \<lparr>vx = 750, vy = 600\<rparr>))
        \<and> position c = \<lparr>vx = 400, vy = 300\<rparr>)
   \<and> heap scene 2 = Char (sample_npc ''Tux'' \<lparr>vx = 470, vy = 300\<rparr>)
   \<and> cls (sample_npc ''Tux'' \<lparr>vx = 470, vy = 300\<rparr>) = NpcClass
   \<and> drawable (sample_npc ''Tux'' \<lparr>vx = 470, vy = 300\<rparr>)
   \<and> (\<exists>c. update 2 scene = Inr (scene\<lparr>heap := (heap scene)(2 := Char c)\<rparr>)
        \<and> collision_state c = collision_state (sample_npc ''Tux'' \<lparr>vx = 470, vy = 300\<rparr>)
        \<and> position c = \<lparr>vx = 470, vy = 300\<rparr>)
   \<and> heap bare_scene 2 = Char bare_npc \<and> \<not> drawable bare_npc
   \<and> update 2 bare_scene = Inl (TypeError, bare_scene)"
proof -
  let ?Tux = "sample_npc ''Tux'' \<lparr>vx = 470, vy = 300\<rparr>"
  have dm: "draw moving_scene moving_player = Inr moving_player"
    by (simp add: draw_eq moving_player_facts draw_style_scene_again)
  have tux: "?Tux \<in> set (partners moving_scene (Suc 0))"
    and ne: "partners moving_scene (Suc 0) \<noteq> []"
    and la: "last (partners moving_scene (Suc 0)) = sample_npc ''Robot'' \<lparr>vx = 750, vy = 600\<rparr>"
    by (simp_all add: moving_scene_facts partners_scene)
  have i: "canvas_id (canvas ?Tux) = ''Tux''"
    by (simp add: rect_sample_npc)
  have cl: "clamp_axis 1000 160 400 = 400" "clamp_axis 800 160 300 = 300"
    by (simp_all add: clamp_axis_def)
  from update_runs_collisionChecks [of moving_scene 1 moving_player,
      THEN conjunct1, rule_format]
  obtain t c where a: "draw moving_scene moving_player = Inr t"
    and u: "update 1 moving_scene = Inr (moving_scene\<lparr>heap := (heap moving_scene)(1 := Char c)\<rparr>)"
    and k: "cls moving_player \<noteq> NpcClass \<longrightarrow>
       collisionData c =
         (if partners moving_scene 1 = [] then collisionData moving_player
          else Some (collision_result t (last (partners moving_scene 1))))
       \<and> (\<forall>other \<in> set (partners moving_scene 1).
             hits t other \<longrightarrow> canvas_id (canvas other) \<in> set (collisionEvents c))
       \<and> ((\<forall>other \<in> set (partners moving_scene 1). \<not> hits t other) \<longrightarrow>
             collisionEvents c = [])
       \<and> position c =
           \<lparr>vx = clamp_axis (innerWidth moving_scene) (char_width moving_player)
                   (vx (position moving_player) + vx (checked_velocity moving_scene 1 t)),
            vy = clamp_axis (innerHeight moving_scene) (char_height moving_player)
                   (vy (position moving_player) + vy (checked_velocity moving_scene 1 t))\<rparr>"
    using moving_scene_facts(1) moving_player_facts(2) by auto
  from a dm have t: "t = moving_player" by simp
  from k t have cd: "collisionData c = Some (collision_result moving_player
       (sample_npc ''Robot'' \<lparr>vx = 750, vy = 600\<rparr>))"
    and ev: "\<forall>other \<in> set (partners moving_scene (Suc 0)).
       hits moving_player other \<longrightarrow> canvas_id (canvas other) \<in> set (collisionEvents c)"
    and po: "position c = \<lparr>vx = 400, vy = 300\<rparr>"
    by (simp_all add: moving_player_facts moving_scene_facts(3,4) ne la
        checked_velocity_moving cl)
  from ev tux hits_moving_Tux i have "''Tux'' \<in> set (collisionEvents c)"
    by fastforce
  with u cd po have first: "\<exists>c. update 1 moving_scene =
       Inr (moving_scene\<lparr>heap := (heap moving_scene)(1 := Char c)\<rparr>)
     \<and> ''Tux'' \<in> set (collisionEvents c)
     \<and> collisionData c = Some (collision_result moving_player
          (sample_npc ''Robot'' \<lparr>vx = 750, vy = 600\<rparr>))
     \<and> position c = \<lparr>vx = 400, vy = 300\<rparr>"
    by blast
  from update_runs_collisionChecks [of scene 2 ?Tux, THEN conjunct1, rule_format]
  have second: "\<exists>c. update 2 scene = Inr (scene\<lparr>heap := (heap scene)(2 := Char c)\<rparr>)
     \<and> collision_state c = collision_state ?Tux \<and> position c = \<lparr>vx = 470, vy = 300\<rparr>"
    using scene_facts by auto
  have nb: "\<not> drawable bare_npc"
    by (simp add: bare_npc_def drawable_def)
  have hb: "heap bare_scene 2 = Char bare_npc"
    by (simp add: bare_scene_def)
  from update_runs_collisionChecks [of bare_scene 2 bare_npc, THEN conjunct2, rule_format]
    hb nb
  have third: "update 2 bare_scene = Inl (TypeError, bare_scene)" by simp
  from dm tux hits_moving_Tux first second third nb hb show ?thesis
    by (simp add: moving_scene_facts moving_player_facts scene_facts)
qed

text \<open>
  The claim as the specification states it fails for a stationary character. In the
  sample scene Tux overlaps the player, who is in the registry; the \<open>update\<close> of Tux
  returns and leaves Tux as it was, with no collision data and nothing recorded.
\<close>

theorem update_runs_collisionChecks_counterexample:
  "hits (sample_npc ''Tux'' \<lparr>vx = 470, vy = 300\<rparr>) sample_player
   \<and> heap scene 1 = Char sample_player
   \<and> gameObjects scene = [0, 1, 2, 3, 4]
   \<and> character_after_update scene 2 = Some (sample_npc ''Tux'' \<lparr>vx = 470, vy = 300\<rparr>)
   \<and> collisionData (sample_npc ''Tux'' \<lparr>vx = 470, vy = 300\<rparr>) = None
   \<and> collisionEvents (sample_npc ''Tux'' \<lparr>vx = 470, vy = 300\<rparr>) = []"
proof -
  have h: "hits (sample_npc ''Tux'' \<lparr>vx = 470, vy = 300\<rparr>) sample_player"
    by (simp add: hits_def inset_sample_player inset_sample_npc boxes_overlap_def)
  have g: "gameObjects scene = [0, 1, 2, 3, 4]"
    by (simp add: scene_def)
  from h g show ?thesis
    by (simp add: scene_facts character_after_update draw_style_scene_again)
qed

subsection \<open>The registry under destroy\<close>

lemma indexOf_None: "(indexOf xs r = None) = (r \<notin> set xs)"
  by (induction xs) auto

lemma indexOf_Some:
  "indexOf xs r = Some i \<Longrightarrow> i < length xs \<and> xs ! i = r \<and> r \<notin> set (take i xs)"
proof (induction xs arbitrary: i)
  case Nil
  then show ?case by simp
next
  case (Cons x xs)
  show ?case
  proof (cases "x = r")
    case True
    with Cons.prems show ?thesis by simp
  next
    case False
    with Cons.prems obtain j where j: "indexOf xs r = Some j" "i = Suc j"
      by auto
    from Cons.IH [OF j(1)] False j(2) show ?thesis by auto
  qed
qed

lemma splice1_removes:
  assumes "distinct xs" and "indexOf xs r = Some i"
  shows "r \<notin> set (splice1 i xs)" and "set (splice1 i xs) = set xs - {r}"
    and "distinct (splice1 i xs)"
proof -
  from indexOf_Some [OF assms(2)] have i: "i < length xs" "xs ! i = r" by simp_all
  then have xs: "xs = take i xs @ r # drop (Suc i) xs"
    by (metis id_take_nth_drop)
  from assms(1) have d: "distinct (take i xs @ r # drop (Suc i) xs)"
    using xs by simp
  from d show "r \<notin> set (splice1 i xs)" by (auto simp: splice1_def)
  from d have "set (take i xs @ r # drop (Suc i) xs) - {r} = set (splice1 i xs)"
    by (auto simp: splice1_def)
  with xs show "set (splice1 i xs) = set xs - {r}" by simp
  from d show "distinct (splice1 i xs)" by (simp add: splice1_def)
qed

lemma indexOf_last: "x \<notin> set ys \<Longrightarrow> indexOf (ys @ [x]) x = Some (length ys)"
  by (induction ys) auto

lemma destroy_cases:
  assumes "destroy r w = Inr w1"
  shows "(indexOf (gameObjects w) r = None \<and> w1 = w)
    \<or> (\<exists>i. indexOf (gameObjects w) r = Some i
          \<and> gameObjects w1 = splice1 i (gameObjects w)
          \<and> (\<forall>x \<in> set (container w). x \<noteq> r \<longrightarrow> x \<in> set (container w1)))"
  using assms
  by (auto simp: destroy_def Character_destroy_def Background_destroy_def in_set_remove1
      split: gameObject.splits option.splits if_splits)

lemma destroy_frame:
  assumes "destroy r w = Inr w1"
  shows "heap w1 = heap w" and "next_ref w1 = next_ref w"
    and "continueLevel w1 = continueLevel w" and "innerWidth w1 = innerWidth w"
    and "innerHeight w1 = innerHeight w" and "layout w1 = layout w"
  using assms
  by (auto simp: destroy_def Character_destroy_def Background_destroy_def
      split: gameObject.splits option.splits if_splits)

lemma destroy_not_in_registry:
  assumes "r \<notin> set (gameObjects w)"
  shows "destroy r w = Inr w"
proof -
  from assms have "indexOf (gameObjects w) r = None" by (simp add: indexOf_None)
  then show ?thesis
    by (simp add: destroy_def Character_destroy_def Background_destroy_def
        split: gameObject.splits)
qed

text \<open>
  C9. In a registry that holds no object twice, which is what the constructors and
  \<open>destroy\<close> maintain, a second \<open>destroy\<close> of the same object raises no error and
  leaves the world as the first call left it.
\<close>

theorem destroy_twice:
  assumes "distinct (gameObjects w)" and "destroy r w = Inr w1"
  shows "destroy r w1 = Inr w1"
proof -
  from destroy_cases [OF assms(2)] have "r \<notin> set (gameObjects w1)"
  proof
    assume "indexOf (gameObjects w) r = None \<and> w1 = w"
    then show ?thesis by (simp add: indexOf_None)
  next
    assume "\<exists>i. indexOf (gameObjects w) r = Some i
          \<and> gameObjects w1 = splice1 i (gameObjects w)
          \<and> (\<forall>x \<in> set (container w). x \<noteq> r \<longrightarrow> x \<in> set (container w1))"
    then obtain i where "indexOf (gameObjects w) r = Some i"
      "gameObjects w1 = splice1 i (gameObjects w)" by blast
    with splice1_removes(1) [OF assms(1)] show ?thesis by simp
  qed
  then show ?thesis by (rule destroy_not_in_registry)
qed

lemma destroy_scene_player:
  "destroy 1 scene = Inr (scene\<lparr>container := [2, 3, 4], gameObjects := [0, 2, 3, 4]\<rparr>)"
  by (simp add: destroy_def Character_destroy_def scene_def world0_def splice1_def)

theorem destroy_twice_witness:
  "distinct (gameObjects scene)
   \<and> destroy 1 scene = Inr (scene\<lparr>container := [2, 3, 4], gameObjects := [0, 2, 3, 4]\<rparr>)
   \<and> destroy 1 (scene\<lparr>container := [2, 3, 4], gameObjects := [0, 2, 3, 4]\<rparr>)
       = Inr (scene\<lparr>container := [2, 3, 4], gameObjects := [0, 2, 3, 4]\<rparr>)"
proof -
  have d: "distinct (gameObjects scene)" by (simp add: scene_def)
  from destroy_twice [OF d destroy_scene_player] d destroy_scene_player
  show ?thesis by simp
qed

subsection \<open>Construction\<close>

lemma Character_constructor_failure:
  assumes "Character_constructor k data w = Inl (e, w')"
  shows "gameObjects w' = gameObjects w \<and> heap w' = heap w"
  using assms
  by (auto simp: Character_constructor_def Let_def split: option.splits if_splits)

lemma Character_constructor_success:
  assumes "truthy_str (src d)"
  shows "Character_constructor k (Some d) w =
    Inr (next_ref w,
      w\<lparr>next_ref := Suc (next_ref w), container := container w @ [next_ref w],
        gameObjects := gameObjects w @ [next_ref w],
        heap := (heap w)(next_ref w := Char (resize w
          (Character_fields k d (new_canvas d (layout w (next_ref w))) w)))\<rparr>)"
proof -
  have r: "resize (w\<lparr>next_ref := n, container := c, gameObjects := g\<rparr>) t = resize w t"
    for n c g t
    by (simp add: resize_def)
  have f: "Character_fields k d cv (w\<lparr>next_ref := n, container := c\<rparr>) = Character_fields k d cv w"
    for n c cv
    by (simp add: Character_fields_def)
  from assms show ?thesis
    by (simp add: Character_constructor_def Let_def r f)
qed

lemma new_character_failure:
  assumes "new_character k data w = Inl (e, w')"
  shows "gameObjects w' = gameObjects w \<and> heap w' = heap w"
proof (cases k)
  case CharacterClass
  with assms Character_constructor_failure show ?thesis
    by (simp add: new_character_def)
next
  case PlayerClass
  with assms Character_constructor_failure show ?thesis
    by (simp add: new_character_def Player_constructor_def)
next
  case NpcClass
  with assms have "Character_constructor NpcClass data w = Inl (e, w')"
    by (simp add: new_character_def Npc_constructor_def split: sum.splits prod.splits)
  then show ?thesis by (rule Character_constructor_failure)
qed

lemma new_character_no_src:
  assumes "\<not> truthy_str (src d)"
  shows "new_character k (Some d) w =
    Inl (Error ''Sprite data is required'',
         w\<lparr>next_ref := Suc (next_ref w), container := container w @ [next_ref w]\<rparr>)"
  using assms
  by (cases k)
     (simp_all add: new_character_def Player_constructor_def Npc_constructor_def
       Character_constructor_def Let_def)

lemma new_character_null: "new_character k None w = Inl (TypeError, w)"
  by (cases k)
     (simp_all add: new_character_def Player_constructor_def Npc_constructor_def
       Character_constructor_def)

lemma new_character_success:
  assumes "truthy_str (src d)"
  shows "\<exists>w'. new_character k (Some d) w = Inr (next_ref w, w')
    \<and> gameObjects w' = gameObjects w @ [next_ref w]
    \<and> next_ref w' = Suc (next_ref w)
    \<and> container w' = container w @ [next_ref w]
    \<and> (\<exists>c. heap w' = (heap w)(next_ref w := Char c))
    \<and> continueLevel w' = continueLevel w \<and> innerWidth w' = innerWidth w
    \<and> innerHeight w' = innerHeight w"
proof (cases k)
  case CharacterClass
  then show ?thesis
    by (auto simp: new_character_def Character_constructor_success [OF assms])
next
  case PlayerClass
  then show ?thesis
    by (auto simp: new_character_def Player_constructor_def
        Character_constructor_success [OF assms])
next
  case NpcClass
  then show ?thesis
    by (auto simp: new_character_def Npc_constructor_def
        Character_constructor_success [OF assms])
qed

text \<open>
  C7. Constructing a \<open>Character\<close>, a \<open>Player\<close> or an \<open>Npc\<close> with no descriptor, or with
  a descriptor that lacks a sprite source, raises an error during construction, and the
  registry is the same after the failed construction as before it. No failure of a
  constructor changes the registry; with a sprite source the object is built and added.
\<close>

theorem failed_construction_keeps_registry:
  "new_character k None w = Inl (TypeError, w)
   \<and> (\<not> truthy_str (src d) \<longrightarrow>
        (\<exists>w'. new_character k (Some d) w = Inl (Error ''Sprite data is required'', w')
           \<and> gameObjects w' = gameObjects w \<and> heap w' = heap w))
   \<and> (\<forall>e w'. new_character k data w = Inl (e, w') \<longrightarrow>
        gameObjects w' = gameObjects w \<and> heap w' = heap w)
   \<and> (truthy_str (src d) \<longrightarrow>
        (\<exists>w'. new_character k (Some d) w = Inr (next_ref w, w')
           \<and> gameObjects w' = gameObjects w @ [next_ref w]))"
proof -
  have n: "new_character k None w = Inl (TypeError, w)"
    by (rule new_character_null)
  have a: "\<not> truthy_str (src d) \<longrightarrow>
      (\<exists>w'. new_character k (Some d) w = Inl (Error ''Sprite data is required'', w')
         \<and> gameObjects w' = gameObjects w \<and> heap w' = heap w)"
    by (simp add: new_character_no_src)
  have c: "\<forall>e w'. new_character k data w = Inl (e, w') \<longrightarrow>
        gameObjects w' = gameObjects w \<and> heap w' = heap w"
    using new_character_failure [of k data w] by blast
  have b: "truthy_str (src d) \<longrightarrow>
      (\<exists>w'. new_character k (Some d) w = Inr (next_ref w, w')
         \<and> gameObjects w' = gameObjects w @ [next_ref w])"
    using new_character_success [of d k w] by blast
  show ?thesis
    by (rule conjI [OF n conjI [OF a conjI [OF c b]]])
qed

text \<open>
  The page constructs its player from \<open>{ x: 50, y: 50 }\<close>, a descriptor without any of
  the fields read here: the construction fails and the registry of the sample scene keeps
  its five objects. The descriptor of the sample player succeeds and is added.
\<close>

theorem failed_construction_keeps_registry_witness:
  "\<not> truthy_str (src empty_data)
   \<and> (\<exists>w'. new_character PlayerClass (Some empty_data) scene
              = Inl (Error ''Sprite data is required'', w')
          \<and> gameObjects w' = [0, 1, 2, 3, 4])
   \<and> new_character NpcClass None scene = Inl (TypeError, scene)
   \<and> truthy_str (src (sprite_data_player ''Chill Guy'' \<lparr>vx = 400, vy = 300\<rparr>))
   \<and> (\<exists>w'. new_character PlayerClass
              (Some (sprite_data_player ''Chill Guy'' \<lparr>vx = 400, vy = 300\<rparr>)) scene
              = Inr (5, w')
          \<and> gameObjects w' = [0, 1, 2, 3, 4, 5])"
proof -
  have s: "\<not> truthy_str (src empty_data)"
    "truthy_str (src (sprite_data_player ''Chill Guy'' \<lparr>vx = 400, vy = 300\<rparr>))"
    by (simp_all add: empty_data_def sprite_data_player_def truthy_str_def)
  have g: "gameObjects scene = [0, 1, 2, 3, 4]" "next_ref scene = 5"
    by (simp_all add: scene_def)
  note t1 = failed_construction_keeps_registry
      [of PlayerClass scene empty_data "Some empty_data"]
  note t2 = failed_construction_keeps_registry
      [of NpcClass scene empty_data None]
  note t3 = failed_construction_keeps_registry
      [of PlayerClass scene "sprite_data_player ''Chill Guy'' \<lparr>vx = 400, vy = 300\<rparr>" None]
  note a1 = t1 [THEN conjunct2, THEN conjunct1, rule_format, OF s(1)]
  note a2 = t2 [THEN conjunct1]
  note a3 = t3 [THEN conjunct2, THEN conjunct2, THEN conjunct2, rule_format, OF s(2)]
  from a1 obtain w1 where w1: "new_character PlayerClass (Some empty_data) scene
      = Inl (Error ''Sprite data is required'', w1)" "gameObjects w1 = gameObjects scene"
    by (elim exE conjE)
  from a3 obtain w3 where w3: "new_character PlayerClass
      (Some (sprite_data_player ''Chill Guy'' \<lparr>vx = 400, vy = 300\<rparr>)) scene
      = Inr (next_ref scene, w3)" "gameObjects w3 = gameObjects scene @ [next_ref scene]"
    by (elim exE conjE)
  have f1: "\<exists>w'. new_character PlayerClass (Some empty_data) scene
              = Inl (Error ''Sprite data is required'', w')
          \<and> gameObjects w' = [0, 1, 2, 3, 4]"
    using w1 g(1) by (intro exI [of _ w1]) simp
  have f3: "\<exists>w'. new_character PlayerClass
              (Some (sprite_data_player ''Chill Guy'' \<lparr>vx = 400, vy = 300\<rparr>)) scene
              = Inr (5, w')
          \<and> gameObjects w' = [0, 1, 2, 3, 4, 5]"
    using w3 g by (intro exI [of _ w3]) simp
  show ?thesis
    by (intro conjI s a2 f1 f3)
qed

subsection \<open>The end of a level\<close>

lemma splice1_last: "splice1 (length ys) (ys @ [x]) = ys"
  by (simp add: splice1_def)

lemma destroy_last:
  assumes ok: "registry_ok w" and g: "gameObjects w = ys @ [x]"
  shows "\<exists>w1. destroy x w = Inr w1 \<and> gameObjects w1 = ys \<and> registry_ok w1
    \<and> heap w1 = heap w \<and> next_ref w1 = next_ref w \<and> continueLevel w1 = continueLevel w
    \<and> innerWidth w1 = innerWidth w \<and> innerHeight w1 = innerHeight w"
proof -
  from ok g have x: "x \<notin> set ys" and d: "distinct ys"
    by (simp_all add: registry_ok_def)
  from x have i: "indexOf (ys @ [x]) x = Some (length ys)"
    by (rule indexOf_last)
  from ok g have lt: "\<forall>r \<in> set ys. r < next_ref w"
    by (simp add: registry_ok_def)
  from ok g have at: "\<forall>r \<in> set ys.
      case heap w r of Char _ \<Rightarrow> r \<in> set (container w) | Background _ \<Rightarrow> True"
    by (simp add: registry_ok_def)
  show ?thesis
  proof (cases "heap w x")
    case (Background b)
    let ?w1 = "w\<lparr>gameObjects := ys\<rparr>"
    have "destroy x w = Inr ?w1"
      by (simp add: destroy_def Background Background_destroy_def i g splice1_last)
    moreover have "registry_ok ?w1"
      using d lt at by (simp add: registry_ok_def cong: gameObject.case_cong)
    ultimately show ?thesis by simp
  next
    case (Char c)
    with ok g have xc: "x \<in> set (container w)"
      by (simp add: registry_ok_def)
    let ?w1 = "w\<lparr>container := remove1 x (container w), gameObjects := ys\<rparr>"
    have "destroy x w = Inr ?w1"
      by (simp add: destroy_def Char Character_destroy_def i xc g splice1_last)
    moreover have "registry_ok ?w1"
    proof -
      have "case heap w r of Char _ \<Rightarrow> r \<in> set (remove1 x (container w)) | Background _ \<Rightarrow> True"
        if "r \<in> set ys" for r
      proof -
        from that x have "r \<noteq> x" by auto
        with at that show ?thesis
          by (auto simp: in_set_remove1 split: gameObject.splits)
      qed
      with d lt show ?thesis by (simp add: registry_ok_def cong: gameObject.case_cong)
    qed
    ultimately show ?thesis by simp
  qed
qed

lemma teardown_all:
  assumes "registry_ok w" and "gameObjects w = xs"
  shows "\<exists>w1. teardown (length xs) w = Inr w1 \<and> destroy_each (rev xs) w = Inr w1
    \<and> gameObjects w1 = [] \<and> heap w1 = heap w \<and> next_ref w1 = next_ref w
    \<and> continueLevel w1 = continueLevel w
    \<and> innerWidth w1 = innerWidth w \<and> innerHeight w1 = innerHeight w"
  using assms
proof (induction xs arbitrary: w rule: rev_induct)
  case Nil
  then show ?case by simp
next
  case (snoc x ys)
  from destroy_last [OF snoc.prems] obtain w1 where
    w1: "destroy x w = Inr w1" "gameObjects w1 = ys" "registry_ok w1"
      "heap w1 = heap w" "next_ref w1 = next_ref w" "continueLevel w1 = continueLevel w"
      "innerWidth w1 = innerWidth w" "innerHeight w1 = innerHeight w"
    by blast
  from snoc.IH [OF w1(3) w1(2)] obtain w2 where
    w2: "teardown (length ys) w1 = Inr w2" "destroy_each (rev ys) w1 = Inr w2"
      "gameObjects w2 = []" "heap w2 = heap w1" "next_ref w2 = next_ref w1"
      "continueLevel w2 = continueLevel w1"
      "innerWidth w2 = innerWidth w1" "innerHeight w2 = innerHeight w1"
    by blast
  have "teardown (length (ys @ [x])) w = Inr w2"
    using snoc.prems(2) w1(1) w2(1) by simp
  moreover have "destroy_each (rev (ys @ [x])) w = Inr w2"
    using w1(1) w2(2) by simp
  ultimately show ?case
    using w1 w2 by simp
qed

text \<open>
  The registry need only hold no object twice for the loop to be the destruction of its
  objects from the last to the first, whether it returns or raises.
\<close>

lemma destroy_last_registry:
  assumes d: "distinct (ys @ [x])" and g: "gameObjects w = ys @ [x]"
    and n: "destroy x w = Inr w1"
  shows "gameObjects w1 = ys"
proof -
  from d have "x \<notin> set ys" by simp
  then have i: "indexOf (ys @ [x]) x = Some (length ys)"
    by (rule indexOf_last)
  from n show ?thesis
    by (auto simp: destroy_def Background_destroy_def Character_destroy_def i g splice1_last
        split: gameObject.splits if_splits)
qed

lemma teardown_eq:
  assumes "distinct xs" and "gameObjects w = xs"
  shows "teardown (length xs) w = destroy_each (rev xs) w"
  using assms
proof (induction xs arbitrary: w rule: rev_induct)
  case Nil
  show ?case by simp
next
  case (snoc x ys)
  show ?case
  proof (cases "destroy x w")
    case (Inl e)
    with snoc.prems(2) show ?thesis by simp
  next
    case (Inr w1)
    from destroy_last_registry [OF snoc.prems Inr] have g: "gameObjects w1 = ys" .
    from snoc.prems(1) have "distinct ys" by simp
    from snoc.IH [OF this g] Inr snoc.prems(2) show ?thesis by simp
  qed
qed

lemma Background_constructor_result:
  "\<exists>w'. Background_constructor d w = (next_ref w, w')
    \<and> gameObjects w' = gameObjects w @ [next_ref w] \<and> next_ref w' = Suc (next_ref w)
    \<and> continueLevel w' = continueLevel w \<and> innerWidth w' = innerWidth w
    \<and> innerHeight w' = innerHeight w"
  by (simp add: Background_constructor_def Let_def)

lemma new_object_Inr:
  assumes "new_object c d w = Inr w'"
  shows "gameObjects w' = gameObjects w @ [next_ref w] \<and> next_ref w' = Suc (next_ref w)
    \<and> continueLevel w' = continueLevel w \<and> innerWidth w' = innerWidth w
    \<and> innerHeight w' = innerHeight w"
proof (cases c)
  case BackgroundClass
  with assms Background_constructor_result [of d w] show ?thesis
    by (auto simp: new_object_def)
next
  case (CharClass k)
  show ?thesis
  proof (cases "truthy_str (src d)")
    case True
    from new_character_success [OF True, of k w] assms CharClass show ?thesis
      by (auto simp: new_object_def)
  next
    case False
    from new_character_no_src [OF False, of k w] assms CharClass show ?thesis
      by (simp add: new_object_def)
  qed
qed

lemma new_object_success:
  assumes "case c of BackgroundClass \<Rightarrow> True | CharClass k \<Rightarrow> truthy_str (src d)"
  shows "\<exists>w'. new_object c d w = Inr w'"
proof (cases c)
  case BackgroundClass
  then show ?thesis by (simp add: new_object_def)
next
  case (CharClass k)
  with assms have "truthy_str (src d)" by simp
  from new_character_success [OF this, of k w] CharClass show ?thesis
    by (auto simp: new_object_def)
qed

lemma instantiate_Inr:
  assumes "instantiate objects w = Inr w'"
  shows "gameObjects w' = gameObjects w @ [next_ref w ..< next_ref w + length objects]
    \<and> next_ref w' = next_ref w + length objects
    \<and> continueLevel w' = continueLevel w \<and> innerWidth w' = innerWidth w
    \<and> innerHeight w' = innerHeight w"
  using assms
proof (induction objects arbitrary: w)
  case Nil
  then show ?case by simp
next
  case (Cons o1 objects)
  obtain c data where o1: "o1 = (c, data)" by (cases o1)
  let ?d = "case data of None \<Rightarrow> empty_data | Some d \<Rightarrow> d"
  from Cons.prems o1 obtain w1 where
    w1: "new_object c ?d w = Inr w1" "instantiate objects w1 = Inr w'"
    by (auto split: sum.splits)
  note a = new_object_Inr [OF w1(1)]
  note b = Cons.IH [OF w1(2)]
  have "next_ref w < next_ref w + length (o1 # objects)" by simp
  then have "[next_ref w ..< next_ref w + length (o1 # objects)]
      = next_ref w # [Suc (next_ref w) ..< next_ref w + length (o1 # objects)]"
    by (rule upt_conv_Cons)
  with a b show ?case by (simp del: upt_Suc)
qed

lemma instantiate_success:
  assumes "level_ok objects"
  shows "\<exists>w'. instantiate objects w = Inr w'"
  using assms
proof (induction objects arbitrary: w)
  case Nil
  then show ?case by simp
next
  case (Cons o1 objects)
  obtain c data where o1: "o1 = (c, data)" by (cases o1)
  let ?d = "case data of None \<Rightarrow> empty_data | Some d \<Rightarrow> d"
  from Cons.prems o1 have "case c of BackgroundClass \<Rightarrow> True | CharClass k \<Rightarrow> truthy_str (src ?d)"
    by (auto simp: level_ok_def split: obj_class.splits option.splits)
  from new_object_success [OF this, of w] obtain w1 where w1: "new_object c ?d w = Inr w1"
    by blast
  from Cons.prems have "level_ok objects" by (simp add: level_ok_def)
  from Cons.IH [OF this, of w1] w1 o1 show ?case by simp
qed

subsection \<open>The registry stays well formed\<close>

lemma registry_ok_empty: "registry_ok (w\<lparr>continueLevel := b, gameObjects := []\<rparr>)"
  by (simp add: registry_ok_def)

lemma new_object_registry_ok:
  assumes ok: "registry_ok w" and n: "new_object c d w = Inr w'"
  shows "registry_ok w'"
proof -
  let ?r = "next_ref w"
  from ok have d: "distinct (gameObjects w)" and lt: "\<forall>x \<in> set (gameObjects w). x < ?r"
    and at: "\<forall>x \<in> set (gameObjects w).
      case heap w x of Char _ \<Rightarrow> x \<in> set (container w) | Background _ \<Rightarrow> True"
    by (simp_all add: registry_ok_def)
  from lt have fresh: "?r \<notin> set (gameObjects w)" by auto
  have "\<exists>o1. heap w' = (heap w)(?r := o1)
      \<and> (case o1 of Char _ \<Rightarrow> ?r \<in> set (container w') | Background _ \<Rightarrow> True)
      \<and> set (container w) \<subseteq> set (container w')"
  proof (cases c)
    case BackgroundClass
    with n show ?thesis
      by (auto simp: new_object_def Background_constructor_def Let_def)
  next
    case (CharClass k)
    show ?thesis
    proof (cases "truthy_str (src d)")
      case True
      from new_character_success [OF True, of k w] n CharClass show ?thesis
        by (auto simp: new_object_def)
    next
      case False
      from new_character_no_src [OF False, of k w] n CharClass show ?thesis
        by (simp add: new_object_def)
    qed
  qed
  then obtain o1 where h: "heap w' = (heap w)(?r := o1)"
    and a: "case o1 of Char _ \<Rightarrow> ?r \<in> set (container w') | Background _ \<Rightarrow> True"
    and c: "set (container w) \<subseteq> set (container w')"
    by blast
  note g = new_object_Inr [OF n]
  have "case heap w' x of Char _ \<Rightarrow> x \<in> set (container w') | Background _ \<Rightarrow> True"
    if "x \<in> set (gameObjects w)" for x
  proof -
    from that fresh have "x \<noteq> ?r" by auto
    with h have "heap w' x = heap w x" by simp
    with at that c show ?thesis by (auto split: gameObject.splits)
  qed
  with d lt fresh g h a show ?thesis
    by (auto simp: registry_ok_def less_Suc_eq)
qed

lemma destroy_registry_ok:
  assumes ok: "registry_ok w" and n: "destroy r w = Inr w1"
  shows "registry_ok w1"
proof -
  from ok have d: "distinct (gameObjects w)" and lt: "\<forall>x \<in> set (gameObjects w). x < next_ref w"
    and at: "\<forall>x \<in> set (gameObjects w).
      case heap w x of Char _ \<Rightarrow> x \<in> set (container w) | Background _ \<Rightarrow> True"
    by (simp_all add: registry_ok_def)
  note f = destroy_frame [OF n]
  from destroy_cases [OF n] show ?thesis
  proof
    assume "indexOf (gameObjects w) r = None \<and> w1 = w"
    with ok show ?thesis by simp
  next
    assume "\<exists>i. indexOf (gameObjects w) r = Some i
          \<and> gameObjects w1 = splice1 i (gameObjects w)
          \<and> (\<forall>x \<in> set (container w). x \<noteq> r \<longrightarrow> x \<in> set (container w1))"
    then obtain i where i: "indexOf (gameObjects w) r = Some i"
      and g: "gameObjects w1 = splice1 i (gameObjects w)"
      and c: "\<forall>x \<in> set (container w). x \<noteq> r \<longrightarrow> x \<in> set (container w1)"
      by blast
    note s = splice1_removes [OF d i]
    have "case heap w1 x of Char _ \<Rightarrow> x \<in> set (container w1) | Background _ \<Rightarrow> True"
      if "x \<in> set (gameObjects w1)" for x
    proof -
      from that g s(2) have x: "x \<in> set (gameObjects w)" "x \<noteq> r" by auto
      with at c f(1) show ?thesis by (auto split: gameObject.splits)
    qed
    with g s lt f(2) show ?thesis
      by (auto simp: registry_ok_def)
  qed
qed

lemma instantiate_registry_ok:
  assumes "registry_ok w" and "instantiate objects w = Inr w'"
  shows "registry_ok w'"
  using assms
proof (induction objects arbitrary: w)
  case Nil
  then show ?case by simp
next
  case (Cons o1 objects)
  obtain c data where o1: "o1 = (c, data)" by (cases o1)
  let ?d = "case data of None \<Rightarrow> empty_data | Some d \<Rightarrow> d"
  from Cons.prems(2) o1 obtain w1 where
    w1: "new_object c ?d w = Inr w1" "instantiate objects w1 = Inr w'"
    by (auto split: sum.splits)
  from new_object_registry_ok [OF Cons.prems(1) w1(1)] have "registry_ok w1" .
  from Cons.IH [OF this w1(2)] show ?case .
qed

lemma registry_ok_heap_update:
  assumes ok: "registry_ok w" and h: "heap w r = Char c0"
  shows "registry_ok (w\<lparr>heap := (heap w)(r := Char c)\<rparr>)"
proof -
  from ok have d: "distinct (gameObjects w)" and lt: "\<forall>x \<in> set (gameObjects w). x < next_ref w"
    and at: "\<forall>x \<in> set (gameObjects w).
      case heap w x of Char _ \<Rightarrow> x \<in> set (container w) | Background _ \<Rightarrow> True"
    by (simp_all add: registry_ok_def)
  have "case ((heap w)(r := Char c)) x of Char _ \<Rightarrow> x \<in> set (container w) | Background _ \<Rightarrow> True"
    if x: "x \<in> set (gameObjects w)" for x
  proof (cases "x = r")
    case True
    from at x have "case heap w x of Char _ \<Rightarrow> x \<in> set (container w) | Background _ \<Rightarrow> True"
      by blast
    with True h show ?thesis by simp
  next
    case False
    from at x have "case heap w x of Char _ \<Rightarrow> x \<in> set (container w) | Background _ \<Rightarrow> True"
      by blast
    with False show ?thesis by simp
  qed
  with d lt show ?thesis
    by (simp add: registry_ok_def cong: gameObject.case_cong)
qed

subsection \<open>A tick\<close>

lemma update_cases:
  assumes "update r w = Inr w'"
  shows "w' = w \<or> (\<exists>c0 c. heap w r = Char c0 \<and> w' = w\<lparr>heap := (heap w)(r := Char c)\<rparr>)"
  using assms
  by (auto simp: update_def split: gameObject.splits sum.splits)

lemma update_Inl: "update r w = Inl (e, w') \<Longrightarrow> w' = w"
  by (auto simp: update_def split: gameObject.splits sum.splits)

lemma update_Inr_frame:
  assumes "update r w = Inr w'"
  shows "gameObjects w' = gameObjects w" "next_ref w' = next_ref w"
    "continueLevel w' = continueLevel w" "x \<noteq> r \<Longrightarrow> heap w' x = heap w x"
  using update_cases [OF assms] by auto

lemma update_registry_ok:
  assumes "registry_ok w" and "update r w = Inr w'"
  shows "registry_ok w'"
  using update_cases [OF assms(2)] registry_ok_heap_update [OF assms(1)] assms(1)
  by auto

lemma update_each_Inr:
  assumes "update_each xs w = Inr w'"
  shows "gameObjects w' = gameObjects w \<and> next_ref w' = next_ref w
    \<and> continueLevel w' = continueLevel w \<and> (registry_ok w \<longrightarrow> registry_ok w')"
  using assms
proof (induction xs arbitrary: w)
  case Nil
  then show ?case by simp
next
  case (Cons x xs)
  from Cons.prems obtain w1 where
    w1: "update x w = Inr w1" "update_each xs w1 = Inr w'"
    by (auto split: sum.splits)
  from Cons.IH [OF w1(2)] update_Inr_frame(1-3) [OF w1(1)] update_registry_ok [OF _ w1(1)]
  show ?case by auto
qed

lemma update_success:
  assumes "case heap w r of Char c \<Rightarrow> drawable c | Background _ \<Rightarrow> True"
  shows "\<exists>w'. update r w = Inr w'"
proof (cases "heap w r")
  case (Background b)
  then show ?thesis by (simp add: update_def)
next
  case (Char c)
  with assms have "drawable c" by simp
  with Char show ?thesis by (simp add: update_drawable)
qed

lemma update_each_success:
  assumes "distinct xs"
    and "list_all (\<lambda>r. case heap w r of Char c \<Rightarrow> drawable c | Background _ \<Rightarrow> True) xs"
  shows "\<exists>w'. update_each xs w = Inr w'"
  using assms
proof (induction xs arbitrary: w)
  case Nil
  show ?case by simp
next
  case (Cons x xs)
  from Cons.prems(2) have "case heap w x of Char c \<Rightarrow> drawable c | Background _ \<Rightarrow> True"
    by simp
  from update_success [OF this] obtain w1 where w1: "update x w = Inr w1"
    by blast
  from Cons.prems(1) have d: "distinct xs" and nx: "x \<notin> set xs" by simp_all
  have "heap w1 y = heap w y" if "y \<in> set xs" for y
  proof -
    from that nx have "y \<noteq> x" by auto
    then show ?thesis by (rule update_Inr_frame(4) [OF w1])
  qed
  with Cons.prems(2)
  have "list_all (\<lambda>r. case heap w1 r of Char c \<Rightarrow> drawable c | Background _ \<Rightarrow> True) xs"
    by (simp add: list_all_iff)
  from Cons.IH [OF d this] w1 show ?case by simp
qed

lemma run_tick_Inr:
  assumes "run_tick gc w = Inr (gc', w')"
  shows "currentLevelIndex gc' = currentLevelIndex gc \<and> gameObjects w' = gameObjects w
    \<and> next_ref w' = next_ref w \<and> continueLevel w' = continueLevel w
    \<and> (registry_ok w \<longrightarrow> registry_ok w')"
proof -
  from assms obtain w1 where "update_each (gameObjects w) w = Inr w1" "w' = w1"
    "gc' = gc\<lparr>currentPass := currentPass gc + 1\<rparr>"
    by (auto simp: run_tick_def split: sum.splits)
  with update_each_Inr [of "gameObjects w" w w1] show ?thesis by simp
qed

lemma run_tick_Inl: "run_tick gc w = Inl (e, gc', w') \<Longrightarrow> gc' = gc"
  by (auto simp: run_tick_def split: sum.splits)

lemma run_tick_success:
  assumes "registry_ok w" and "all_drawable w"
  shows "\<exists>gc' w'. run_tick gc w = Inr (gc', w')"
proof -
  from assms(1) have "distinct (gameObjects w)" by (simp add: registry_ok_def)
  from update_each_success [OF this, of w] assms(2) obtain w1 where
    "update_each (gameObjects w) w = Inr w1"
    by (auto simp: all_drawable_def)
  then show ?thesis by (simp add: run_tick_def)
qed

subsection \<open>What a new level holds\<close>

lemma new_character_drawable:
  assumes "truthy_str (src d)" and "pixels d \<noteq> None" and "orientation d \<noteq> None"
    and "frames d DirDown \<noteq> None"
  shows "\<exists>w' c. new_character k (Some d) w = Inr (next_ref w, w')
    \<and> heap w' = (heap w)(next_ref w := Char c) \<and> drawable c"
  using assms(2-)
  by (cases k)
     (auto simp: new_character_def Player_constructor_def Npc_constructor_def
        Character_constructor_success [OF assms(1)] drawable_def resize_frame
        Character_fields_def Npc_fields_def Let_def)

lemma new_object_all_drawable:
  assumes ok: "registry_ok w" and a: "all_drawable w"
    and l: "case c of BackgroundClass \<Rightarrow> True
            | CharClass k \<Rightarrow> truthy_str (src d) \<and> pixels d \<noteq> None \<and> orientation d \<noteq> None
                               \<and> frames d DirDown \<noteq> None"
    and n: "new_object c d w = Inr w'"
  shows "all_drawable w'"
proof -
  let ?r = "next_ref w"
  from ok have "\<forall>x \<in> set (gameObjects w). x < ?r" by (simp add: registry_ok_def)
  then have fresh: "?r \<notin> set (gameObjects w)" by auto
  have "\<exists>o1. heap w' = (heap w)(?r := o1)
      \<and> (case o1 of Char c \<Rightarrow> drawable c | Background _ \<Rightarrow> True)"
  proof (cases c)
    case BackgroundClass
    with n show ?thesis
      by (auto simp: new_object_def Background_constructor_def Let_def)
  next
    case (CharClass k)
    with l have "truthy_str (src d)" "pixels d \<noteq> None" "orientation d \<noteq> None"
      "frames d DirDown \<noteq> None"
      by simp_all
    from new_character_drawable [OF this, of k w] n CharClass show ?thesis
      by (auto simp: new_object_def)
  qed
  then obtain o1 where h: "heap w' = (heap w)(?r := o1)"
    and o: "case o1 of Char c \<Rightarrow> drawable c | Background _ \<Rightarrow> True"
    by blast
  note g = new_object_Inr [OF n]
  have "case heap w' x of Char c \<Rightarrow> drawable c | Background _ \<Rightarrow> True"
    if "x \<in> set (gameObjects w)" for x
  proof -
    from that fresh have "x \<noteq> ?r" by auto
    with h have "heap w' x = heap w x" by simp
    with a that show ?thesis by (simp add: all_drawable_def list_all_iff)
  qed
  with g h o show ?thesis
    by (simp add: all_drawable_def list_all_iff)
qed

lemma instantiate_all_drawable:
  assumes "registry_ok w" and "all_drawable w" and "level_ok objects"
    and "instantiate objects w = Inr w'"
  shows "all_drawable w'"
  using assms
proof (induction objects arbitrary: w)
  case Nil
  then show ?case by simp
next
  case (Cons o1 objects)
  obtain c data where o1: "o1 = (c, data)" by (cases o1)
  let ?d = "case data of None \<Rightarrow> empty_data | Some d \<Rightarrow> d"
  from Cons.prems(4) o1 obtain w1 where
    w1: "new_object c ?d w = Inr w1" "instantiate objects w1 = Inr w'"
    by (auto split: sum.splits)
  from Cons.prems(3) o1
  have l: "case c of BackgroundClass \<Rightarrow> True
           | CharClass k \<Rightarrow> truthy_str (src ?d) \<and> pixels ?d \<noteq> None \<and> orientation ?d \<noteq> None
                              \<and> frames ?d DirDown \<noteq> None"
    by (auto simp: level_ok_def split: obj_class.splits option.splits)
  from Cons.prems(3) have lo: "level_ok objects" by (simp add: level_ok_def)
  from new_object_registry_ok [OF Cons.prems(1) w1(1)] have r1: "registry_ok w1" .
  from new_object_all_drawable [OF Cons.prems(1,2) l w1(1)] have a1: "all_drawable w1" .
  from Cons.IH [OF r1 a1 lo w1(2)] show ?case .
qed

subsection \<open>Loading a level\<close>

lemma loadLevel_past_end:
  "currentLevelIndex gc \<ge> length (levelClasses gc) \<Longrightarrow> loadLevel gc w = Inr (gc, w)"
  by (simp add: loadLevel_def)

lemma loadLevel_Inr:
  assumes "loadLevel gc w = Inr (gc', w')"
    and "currentLevelIndex gc < length (levelClasses gc)"
  shows "currentLevelIndex gc' = currentLevelIndex gc \<and> continueLevel w'
    \<and> gameObjects w' = [next_ref w ..< next_ref w +
         length ((levelClasses gc ! currentLevelIndex gc) (innerWidth w) (innerHeight w))]
    \<and> registry_ok w'"
proof -
  let ?w1 = "w\<lparr>continueLevel := True, gameObjects := []\<rparr>"
  let ?gc1 = "gc\<lparr>currentPass := 0\<rparr>"
  let ?objs = "(levelClasses gc ! currentLevelIndex gc) (innerWidth w) (innerHeight w)"
  from assms obtain w2 where
    w2: "instantiate ?objs ?w1 = Inr w2" "run_tick ?gc1 w2 = Inr (gc', w')"
    by (auto simp: loadLevel_def Let_def split: sum.splits)
  note i = instantiate_Inr [OF w2(1)]
  from instantiate_registry_ok [OF registry_ok_empty w2(1)] have "registry_ok w2" .
  with i run_tick_Inr [OF w2(2)] show ?thesis by simp
qed

lemma loadLevel_Inl:
  assumes "loadLevel gc w = Inl (e, gc', w')"
  shows "currentLevelIndex gc' = currentLevelIndex gc"
proof -
  let ?w1 = "w\<lparr>continueLevel := True, gameObjects := []\<rparr>"
  let ?gc1 = "gc\<lparr>currentPass := 0\<rparr>"
  let ?objs = "(levelClasses gc ! currentLevelIndex gc) (innerWidth w) (innerHeight w)"
  from assms have "gc' = ?gc1 \<or> (\<exists>w2. run_tick ?gc1 w2 = Inl (e, gc', w'))"
    by (auto simp: loadLevel_def Let_def split: if_splits sum.splits)
  then show ?thesis
    by (auto dest: run_tick_Inl)
qed

lemma loadLevel_success:
  assumes "currentLevelIndex gc < length (levelClasses gc)"
    and "level_ok ((levelClasses gc ! currentLevelIndex gc) (innerWidth w) (innerHeight w))"
  shows "\<exists>gc' w'. loadLevel gc w = Inr (gc', w')"
proof -
  let ?w1 = "w\<lparr>continueLevel := True, gameObjects := []\<rparr>"
  let ?objs = "(levelClasses gc ! currentLevelIndex gc) (innerWidth w) (innerHeight w)"
  from instantiate_success [OF assms(2), of ?w1] obtain w2 where
    w2: "instantiate ?objs ?w1 = Inr w2"
    by blast
  have e: "all_drawable ?w1" by (simp add: all_drawable_def)
  from instantiate_registry_ok [OF registry_ok_empty w2] have r: "registry_ok w2" .
  from assms(2) have "level_ok ((levelClasses gc ! currentLevelIndex gc)
      (innerWidth ?w1) (innerHeight ?w1))" by simp
  from instantiate_all_drawable [OF registry_ok_empty e this] w2 have "all_drawable w2"
    by simp
  from run_tick_success [OF r this, of "gc\<lparr>currentPass := 0\<rparr>"] w2 assms(1) show ?thesis
    by (auto simp: loadLevel_def Let_def)
qed

subsection \<open>The tick that ends a level\<close>

text \<open>
  C6. When \<open>continueLevel\<close> is false at the start of a tick and the registry holds no
  object twice, the tick is the destruction of the objects of the registry one by one,
  from the last of the array to the first, followed by the loading of the next level
  with the level index one higher: an error of a \<open>destroy\<close> ends the tick where it is
  raised, with the objects before it in the array still in the registry and the level
  index as it was. When the registry is moreover as the constructors and \<open>destroy\<close>
  keep it, every \<open>destroy\<close> returns and the registry is left empty. The level index
  then goes up by exactly one, whether the next level loads or a constructor or an
  update of it fails. When the tick returns, no object of the old registry is in the new
  one; when a level remains, the new registry holds exactly the objects created for it,
  one per entry of its list, and the flag is set again. A next level whose characters
  all have a sprite source and what \<open>draw\<close> reads does load.
\<close>

theorem gameLoop_level_end:
  assumes "\<not> continueLevel w" and "distinct (gameObjects w)"
  shows "teardown (length (gameObjects w)) w = destroy_each (rev (gameObjects w)) w
    \<and> gameLoop gc w =
        (case destroy_each (rev (gameObjects w)) w of
           Inl (e, w') \<Rightarrow> Inl (e, gc, w')
         | Inr w1 \<Rightarrow> loadLevel (gc\<lparr>currentLevelIndex := currentLevelIndex gc + 1\<rparr>) w1)
    \<and> (registry_ok w \<longrightarrow>
         (\<exists>w1. destroy_each (rev (gameObjects w)) w = Inr w1 \<and> gameObjects w1 = []
            \<and> gameLoop gc w = loadLevel (gc\<lparr>currentLevelIndex := currentLevelIndex gc + 1\<rparr>) w1)
       \<and> (\<forall>gc' w'. gameLoop gc w = Inr (gc', w') \<longrightarrow>
             currentLevelIndex gc' = currentLevelIndex gc + 1
           \<and> set (gameObjects w') \<inter> set (gameObjects w) = {}
           \<and> (currentLevelIndex gc + 1 < length (levelClasses gc) \<longrightarrow>
                continueLevel w'
              \<and> gameObjects w' = [next_ref w ..< next_ref w +
                   length ((levelClasses gc ! (currentLevelIndex gc + 1))
                             (innerWidth w) (innerHeight w))]))
       \<and> (\<forall>e gc' w'. gameLoop gc w = Inl (e, gc', w') \<longrightarrow>
             currentLevelIndex gc' = currentLevelIndex gc + 1)
       \<and> (currentLevelIndex gc + 1 < length (levelClasses gc)
           \<and> level_ok ((levelClasses gc ! (currentLevelIndex gc + 1))
                         (innerWidth w) (innerHeight w))
           \<longrightarrow> (\<exists>gc' w'. gameLoop gc w = Inr (gc', w'))))"
proof (intro conjI impI)
  let ?gc1 = "gc\<lparr>currentLevelIndex := currentLevelIndex gc + 1\<rparr>"
  show eq: "teardown (length (gameObjects w)) w = destroy_each (rev (gameObjects w)) w"
    using assms(2) refl by (rule teardown_eq)
  show gl: "gameLoop gc w =
      (case destroy_each (rev (gameObjects w)) w of
         Inl (e, w') \<Rightarrow> Inl (e, gc, w')
       | Inr w1 \<Rightarrow> loadLevel ?gc1 w1)"
    using assms(1) by (simp add: gameLoop_def handleLevelEnd_def eq)
  assume ok: "registry_ok w"
  from teardown_all [OF ok refl] obtain w1 where
    w1: "destroy_each (rev (gameObjects w)) w = Inr w1" "gameObjects w1 = []"
      "next_ref w1 = next_ref w" "innerWidth w1 = innerWidth w" "innerHeight w1 = innerHeight w"
    by blast
  have g: "gameLoop gc w = loadLevel ?gc1 w1"
    using gl w1(1) by simp
  show "\<exists>w1. destroy_each (rev (gameObjects w)) w = Inr w1 \<and> gameObjects w1 = []
      \<and> gameLoop gc w = loadLevel ?gc1 w1"
    using w1 g by blast
  have old: "\<forall>r \<in> set (gameObjects w). r < next_ref w"
    using ok by (simp add: registry_ok_def)
  have b: "currentLevelIndex gc' = currentLevelIndex gc + 1
        \<and> set (gameObjects w') \<inter> set (gameObjects w) = {}
        \<and> (currentLevelIndex gc + 1 < length (levelClasses gc) \<longrightarrow>
             continueLevel w'
           \<and> gameObjects w' = [next_ref w ..< next_ref w +
                length ((levelClasses gc ! (currentLevelIndex gc + 1))
                          (innerWidth w) (innerHeight w))])"
    if r: "gameLoop gc w = Inr (gc', w')" for gc' w'
  proof (cases "currentLevelIndex gc + 1 < length (levelClasses gc)")
    case True
    from r g have l: "loadLevel ?gc1 w1 = Inr (gc', w')" by simp
    from True have "currentLevelIndex ?gc1 < length (levelClasses ?gc1)" by simp
    from loadLevel_Inr [OF l this] w1(3,4,5)
    have n: "currentLevelIndex gc' = currentLevelIndex gc + 1" "continueLevel w'"
      "gameObjects w' = [next_ref w ..< next_ref w +
          length ((levelClasses gc ! (currentLevelIndex gc + 1)) (innerWidth w) (innerHeight w))]"
      by simp_all
    from n(3) old have "set (gameObjects w') \<inter> set (gameObjects w) = {}"
      by (auto simp del: upt_Suc)
    with n True show ?thesis by simp
  next
    case False
    then have "currentLevelIndex ?gc1 \<ge> length (levelClasses ?gc1)" by simp
    from loadLevel_past_end [OF this, of w1] r g have "gc' = ?gc1" "w' = w1" by simp_all
    with w1(2) False show ?thesis by simp
  qed
  then show "\<forall>gc' w'. gameLoop gc w = Inr (gc', w') \<longrightarrow>
       currentLevelIndex gc' = currentLevelIndex gc + 1
     \<and> set (gameObjects w') \<inter> set (gameObjects w) = {}
     \<and> (currentLevelIndex gc + 1 < length (levelClasses gc) \<longrightarrow>
          continueLevel w'
        \<and> gameObjects w' = [next_ref w ..< next_ref w +
             length ((levelClasses gc ! (currentLevelIndex gc + 1))
                       (innerWidth w) (innerHeight w))])"
    by blast
  have c: "currentLevelIndex gc' = currentLevelIndex gc + 1"
    if "gameLoop gc w = Inl (e, gc', w')" for e gc' w'
    using that g loadLevel_Inl [of ?gc1 w1 e gc' w'] by simp
  then show "\<forall>e gc' w'. gameLoop gc w = Inl (e, gc', w') \<longrightarrow>
       currentLevelIndex gc' = currentLevelIndex gc + 1"
    by blast
  assume "currentLevelIndex gc + 1 < length (levelClasses gc)
     \<and> level_ok ((levelClasses gc ! (currentLevelIndex gc + 1)) (innerWidth w) (innerHeight w))"
  then show "\<exists>gc' w'. gameLoop gc w = Inr (gc', w')"
    using g w1(4,5) loadLevel_success [of ?gc1 w1] by simp
qed

lemma scene_end_facts:
  "\<not> continueLevel scene_end" "distinct (gameObjects scene_end)"
  "registry_ok scene_end"
  "gameObjects scene_end = [0, 1, 2, 3, 4]"
  "next_ref scene_end = 5"
  "innerWidth scene_end = 1000"
  "innerHeight scene_end = 800"
  "currentLevelIndex control0 = 0" "length (levelClasses control0) = 2"
  "levelClasses control0 ! Suc 0 = LevelB" "length (LevelB 1000 800) = 2"
  "level_ok (LevelB 1000 800)"
  by (simp_all add: scene_end_def scene_def world0_def registry_ok_def control0_def LevelB_def
      level_ok_def image_data_def sprite_data_player_def empty_data_def truthy_str_def)

text \<open>
  With the canvas of the player out of the container, the loop destroys Robot, Octocat
  and Tux and stops at the player; going through the array from its first object would
  destroy the background and stop at the player.
\<close>

lemma scene_detached_facts:
  "\<not> continueLevel scene_detached" "distinct (gameObjects scene_detached)"
  "gameObjects scene_detached = [0, 1, 2, 3, 4]"
  by (simp_all add: scene_detached_def scene_def world0_def)

lemma scene_end_lists:
  "length (gameObjects scene_end) = 5" "rev (gameObjects scene_end) = [4, 3, 2, 1, 0]"
  "length (gameObjects scene_detached) = 5"
  "rev (gameObjects scene_detached) = [4, 3, 2, 1, 0]"
  by (simp_all add: scene_end_def scene_detached_def scene_def world0_def)

lemma destroy_each_detached:
  "destroy_each [4, 3, 2, 1, 0] scene_detached =
     Inl (TypeError, scene_detached\<lparr>container := [], gameObjects := [0, 1]\<rparr>)"
  "destroy_each [0, 1, 2, 3, 4] scene_detached =
     Inl (TypeError, scene_detached\<lparr>gameObjects := [1, 2, 3, 4]\<rparr>)"
  by (simp_all add: scene_detached_def scene_def world0_def destroy_def Character_destroy_def
      Background_destroy_def splice1_def)

theorem gameLoop_level_end_witness:
  "\<not> continueLevel scene_end \<and> distinct (gameObjects scene_end) \<and> registry_ok scene_end
   \<and> gameObjects scene_end = [0, 1, 2, 3, 4]
   \<and> (\<exists>w1. teardown 5 scene_end = Inr w1 \<and> destroy_each [4, 3, 2, 1, 0] scene_end = Inr w1
          \<and> gameObjects w1 = [])
   \<and> (\<exists>gc' w'. gameLoop control0 scene_end = Inr (gc', w')
          \<and> currentLevelIndex gc' = 1 \<and> gameObjects w' = [5, 6] \<and> continueLevel w')
   \<and> \<not> continueLevel scene_detached \<and> distinct (gameObjects scene_detached)
   \<and> gameObjects scene_detached = [0, 1, 2, 3, 4]
   \<and> teardown 5 scene_detached =
       Inl (TypeError, scene_detached\<lparr>container := [], gameObjects := [0, 1]\<rparr>)
   \<and> gameLoop control0 scene_detached =
       Inl (TypeError, control0, scene_detached\<lparr>container := [], gameObjects := [0, 1]\<rparr>)
   \<and> destroy_each [0, 1, 2, 3, 4] scene_detached =
       Inl (TypeError, scene_detached\<lparr>gameObjects := [1, 2, 3, 4]\<rparr>)"
proof -
  note t = gameLoop_level_end [OF scene_end_facts(1,2), of control0]
  note t0 = t [THEN conjunct1]
  note t3 = t [THEN conjunct2, THEN conjunct2, rule_format, OF scene_end_facts(3)]
  note t1 = t3 [THEN conjunct1]
  note t2 = t3 [THEN conjunct2, THEN conjunct1, rule_format]
  note t4 = t3 [THEN conjunct2, THEN conjunct2, THEN conjunct2, rule_format]
  from t1 obtain w1 where w1: "destroy_each (rev (gameObjects scene_end)) scene_end = Inr w1"
    "gameObjects w1 = []"
    by (elim exE conjE)
  from t0 w1(1) have "teardown (length (gameObjects scene_end)) scene_end = Inr w1"
    by simp
  from this [unfolded scene_end_lists] w1(1) [unfolded scene_end_lists] w1(2)
  have a: "\<exists>w1. teardown 5 scene_end = Inr w1
      \<and> destroy_each [4, 3, 2, 1, 0] scene_end = Inr w1 \<and> gameObjects w1 = []"
    by blast
  have "\<exists>gc' w'. gameLoop control0 scene_end = Inr (gc', w')"
    by (rule t4) (simp add: scene_end_facts)
  then obtain gc' w' where r: "gameLoop control0 scene_end = Inr (gc', w')"
    by (elim exE)
  from t2 [OF r] have "currentLevelIndex gc' = 1 \<and> gameObjects w' = [5, 6] \<and> continueLevel w'"
    by (simp add: scene_end_facts upt_rec)
  with r have b: "\<exists>gc' w'. gameLoop control0 scene_end = Inr (gc', w')
          \<and> currentLevelIndex gc' = 1 \<and> gameObjects w' = [5, 6] \<and> continueLevel w'"
    by (intro exI [of _ gc'] exI [of _ w']) simp
  note u = gameLoop_level_end [OF scene_detached_facts(1,2), of control0]
  from u [THEN conjunct1, unfolded scene_end_lists]
  have c: "teardown 5 scene_detached =
      Inl (TypeError, scene_detached\<lparr>container := [], gameObjects := [0, 1]\<rparr>)"
    by (simp only: destroy_each_detached(1))
  from u [THEN conjunct2, THEN conjunct1, unfolded scene_end_lists]
  have d: "gameLoop control0 scene_detached =
      Inl (TypeError, control0, scene_detached\<lparr>container := [], gameObjects := [0, 1]\<rparr>)"
    by (simp only: destroy_each_detached(1) sum.case prod.case)
  note e = destroy_each_detached(2)
  from a b c d e scene_end_facts(1,2,3,4) scene_detached_facts show ?thesis
    by (intro conjI)
qed

subsection \<open>Every level starts and runs with a well formed registry\<close>

lemma loadLevel_registry_ok:
  assumes "loadLevel gc w = Inr (gc', w')"
    and "currentLevelIndex gc < length (levelClasses gc)"
  shows "registry_ok w'"
  using loadLevel_Inr [OF assms] by simp

subsection \<open>The prompt panel\<close>

lemma question_rows_inputs: "concat (map row_inputs (question_rows qs)) = [0..<length qs]"
proof -
  have "concat (map row_inputs (question_rows qs)) = map fst (enumerate 0 qs)"
    by (simp add: question_rows_def comp_def case_prod_beta concat_map_singleton)
  then show ?thesis by (simp add: map_fst_enumerate)
qed

lemma updatePromptTable_inputs:
  "currentNpc p = Some npc \<Longrightarrow> node_inputs (updatePromptTable p) = [0..<length (questions npc)]"
  by (simp add: updatePromptTable_def question_rows_inputs)

lemma openPromptPanel_shows:
  assumes "openPromptPanel npc p = Inr p'"
  shows "displayed_title p' = Some ''Questions''
    \<and> text_inputs p' = [0..<length (questions npc)]
    \<and> currentNpc p' = Some npc \<and> isOpen p'"
proof -
  from assms obtain p1 q where
    p1: "(if isOpen p then backgroundDim_remove p else Inr p) = Inr p1"
    and q: "quiz npc = Some q" and t: "title_attached p"
    by (auto simp: openPromptPanel_def Let_def split: sum.splits if_splits option.splits)
  let ?p3 = "p1\<lparr>currentNpc := Some npc, isOpen := True, dropDown := [],
      title_attached := False, title_display := ''block''\<rparr>"
  let ?p5 = "?p3\<lparr>title_html := ''Questions'', dropDown := [TitleNode], title_attached := True\<rparr>"
  have r: "p' = backgroundDim_create (?p5\<lparr>dropDown := [TitleNode, updatePromptTable ?p5]\<rparr>)"
    using assms p1 q t
    by (simp add: openPromptPanel_def Let_def title_of_string_def str_or_def)
  have i: "node_inputs (updatePromptTable ?p5) = [0..<length (questions npc)]"
    by (rule updatePromptTable_inputs) simp
  show ?thesis
    unfolding r using i
    by (simp add: backgroundDim_create_def displayed_title_def text_inputs_def)
qed

lemma sample_npc_quiz:
  "quiz (sample_npc name p) = Some ''Linux Command Quiz''"
  "questions (sample_npc name p) =
     [''Which command is used to change directories?'',
      ''Which command is used to list files in a directory?'']"
  by (simp_all add: sample_npc_def draw_style_def Npc_fields_def resize_frame Character_fields_def
      sprite_data_npc_def shuffleArray_def world0_def Let_def)

text \<open>
  C8 at a stationary character that the constructor of \<open>Npc\<close> has built from a quiz
  titled ``Linux Command Quiz'': \<open>openPromptPanel\<close> returns, the title it displays is
  ``Questions'', and the panel holds one text input for each of the two questions. The
  constructor stores the title string in \<open>this.quiz\<close>, and \<open>openPromptPanel\<close> reads
  \<open>npc.quiz.title\<close>, a property that a string does not have.
\<close>

theorem openPromptPanel_displays_Questions:
  "quiz (sample_npc ''Tux'' \<lparr>vx = 470, vy = 300\<rparr>) = Some ''Linux Command Quiz''
   \<and> length (questions (sample_npc ''Tux'' \<lparr>vx = 470, vy = 300\<rparr>)) = 2
   \<and> (\<exists>p'. openPromptPanel (sample_npc ''Tux'' \<lparr>vx = 470, vy = 300\<rparr>) prompt0 = Inr p'
         \<and> displayed_title p' = Some ''Questions''
         \<and> displayed_title p' \<noteq> Some ''Linux Command Quiz''
         \<and> text_inputs p' = [0, 1])"
proof -
  let ?npc = "sample_npc ''Tux'' \<lparr>vx = 470, vy = 300\<rparr>"
  have "\<exists>p'. openPromptPanel ?npc prompt0 = Inr p'"
    by (simp add: openPromptPanel_def prompt0_def initializePrompt_def sample_npc_quiz Let_def)
  then obtain p' where p': "openPromptPanel ?npc prompt0 = Inr p'" by (elim exE)
  from openPromptPanel_shows [OF p'] have
    "displayed_title p' = Some ''Questions'' \<and> text_inputs p' = [0, 1]"
    by (simp add: sample_npc_quiz upt_rec)
  with p' have "\<exists>p'. openPromptPanel ?npc prompt0 = Inr p'
         \<and> displayed_title p' = Some ''Questions''
         \<and> displayed_title p' \<noteq> Some ''Linux Command Quiz''
         \<and> text_inputs p' = [0, 1]"
    by (intro exI [of _ p']) simp
  then show ?thesis by (simp add: sample_npc_quiz)
qed

end
